theory Spec2Isabelle
  imports Main "HOL-Library.Word"
begin

unbundle bit_operations_syntax

section \<open>Sortable key encoding (common/cpp/public\_metadata/serialize.cc)\<close>

type_synonym byte = "8 word"
type_synonym uint64 = "64 word"

text \<open>
  The byte order of the host. \<open>memcpy\<close> between a \<open>uint64_t\<close> and a byte buffer copies the
  object representation, which is the little-endian or the big-endian list of the eight
  bytes of the value; \<open>htobe64\<close> is a byte swap on a little-endian host and the identity on
  a big-endian one.
\<close>

datatype byte_order = LittleEndian | BigEndian

definition le_bytes :: "uint64 \<Rightarrow> byte list" where
  "le_bytes x = map (\<lambda>i. ucast (drop_bit (8 * i) x)) [0..<8]"

fun le_value :: "byte list \<Rightarrow> uint64" where
  "le_value [] = 0"
| "le_value (b # bs) = ucast b OR push_bit 8 (le_value bs)"

text \<open>\<open>memcpy(dst, &x, sizeof(x))\<close>: the eight bytes of \<open>x\<close> as they lie in memory.\<close>

definition object_bytes :: "byte_order \<Rightarrow> uint64 \<Rightarrow> byte list" where
  "object_bytes h x = (case h of LittleEndian \<Rightarrow> le_bytes x | BigEndian \<Rightarrow> rev (le_bytes x))"

text \<open>\<open>memcpy(&value, src, sizeof(value))\<close>: reads the first eight bytes of the buffer.\<close>

definition object_value :: "byte_order \<Rightarrow> byte list \<Rightarrow> uint64" where
  "object_value h bs =
     (case h of LittleEndian \<Rightarrow> le_value (take 8 bs) | BigEndian \<Rightarrow> le_value (rev (take 8 bs)))"

definition bswap64 :: "uint64 \<Rightarrow> uint64" where
  "bswap64 x =
     push_bit 56 (x AND 0xff) OR push_bit 40 (x AND 0xff00) OR
     push_bit 24 (x AND 0xff0000) OR push_bit 8 (x AND 0xff000000) OR
     (drop_bit 8 x AND 0xff000000) OR (drop_bit 24 x AND 0xff0000) OR
     (drop_bit 40 x AND 0xff00) OR drop_bit 56 x"

definition htobe64 :: "byte_order \<Rightarrow> uint64 \<Rightarrow> uint64" where
  "htobe64 h x = (case h of LittleEndian \<Rightarrow> bswap64 x | BigEndian \<Rightarrow> x)"

text \<open>\<open>BytesFromUint64\<close>: the key is resized to eight bytes and overwritten whole.\<close>

definition BytesFromUint64 :: "byte_order \<Rightarrow> uint64 \<Rightarrow> byte list" where
  "BytesFromUint64 h fp = (let norder = htobe64 h fp in object_bytes h norder)"

definition Uint64ToBytes :: "byte_order \<Rightarrow> uint64 \<Rightarrow> byte list" where
  "Uint64ToBytes h fp = BytesFromUint64 h fp"

text \<open>
  \<open>BytesToUint64\<close>: \<open>DCHECK_EQ(key.size(), sizeof(value))\<close> is the \<open>None\<close> branch; a key of
  eight bytes is copied into the value and converted with \<open>htobe64\<close>.
\<close>

definition BytesToUint64 :: "byte_order \<Rightarrow> byte list \<Rightarrow> uint64 option" where
  "BytesToUint64 h key =
     (if length key \<noteq> 8 then None
      else let v = object_value h key in Some (htobe64 h v))"

text \<open>
  The order of \<open>std::string\<close> keys: bytes are compared as unsigned values from the front,
  and a proper prefix is smaller.
\<close>

fun bytes_le :: "byte list \<Rightarrow> byte list \<Rightarrow> bool" where
  "bytes_le [] ys = True"
| "bytes_le (x # xs) [] = False"
| "bytes_le (x # xs) (y # ys) =
     (if x < y then True else if y < x then False else bytes_le xs ys)"

text \<open>The number a byte string denotes in base 256, most significant byte first.\<close>

fun be_nat :: "byte list \<Rightarrow> nat" where
  "be_nat [] = 0"
| "be_nat (b # bs) = unat b * 256 ^ length bs + be_nat bs"

text \<open>The \<open>k\<close> lowest base-256 digits of a number, least significant first.\<close>

fun digits :: "nat \<Rightarrow> nat \<Rightarrow> nat list" where
  "digits 0 n = []"
| "digits (Suc k) n = (n mod 256) # digits k (n div 256)"

section \<open>Status values (absl::Status with the PPN status details payload)\<close>

datatype StatusCode =
  kOk | kInvalidArgument | kFailedPrecondition | kPermissionDenied | kInternal | kUnavailable

datatype DetailedErrorCode = ERROR_CODE_UNKNOWN | VPN_PERMISSION_REVOKED | OTHER_ERROR_CODE nat

record Status =
  code :: StatusCode
  message :: string
  ppn_details :: "DetailedErrorCode option"

definition OkStatus :: Status where
  "OkStatus = \<lparr>code = kOk, message = [], ppn_details = None\<rparr>"

definition InternalError :: "string \<Rightarrow> Status" where
  "InternalError msg = \<lparr>code = kInternal, message = msg, ppn_details = None\<rparr>"

definition FailedPreconditionError :: "string \<Rightarrow> Status" where
  "FailedPreconditionError msg = \<lparr>code = kFailedPrecondition, message = msg, ppn_details = None\<rparr>"

definition ok :: "Status \<Rightarrow> bool" where
  "ok st = (code st = kOk)"

section \<open>PublicMetadata fingerprint (common/cpp/public\_metadata/fingerprint.cc)\<close>

text \<open>
  The message, as session\_test.cc writes it: every field is optional on the wire, and
  the generated accessor of an unset field (or of a field of an unset sub-message) returns
  the default value, the empty string or 0.
\<close>

record Timestamp =
  seconds :: "64 word option"
  nanos :: "32 word option"

record ExitLocation =
  country :: "string option"
  city_geo_id :: "string option"

record PublicMetadata =
  exit_location :: "ExitLocation option"
  service_type :: "string option"
  expiration :: "Timestamp option"
  debug_mode :: "32 word option"

definition string_or_default :: "string option \<Rightarrow> string" where
  "string_or_default f = (case f of None \<Rightarrow> [] | Some v \<Rightarrow> v)"

definition int_or_default :: "'a::len word option \<Rightarrow> 'a word" where
  "int_or_default f = (case f of None \<Rightarrow> 0 | Some v \<Rightarrow> v)"

definition get_country :: "'a PublicMetadata_scheme \<Rightarrow> string" where
  "get_country metadata =
     (case exit_location metadata of None \<Rightarrow> [] | Some l \<Rightarrow> string_or_default (country l))"

definition get_city_geo_id :: "'a PublicMetadata_scheme \<Rightarrow> string" where
  "get_city_geo_id metadata =
     (case exit_location metadata of None \<Rightarrow> [] | Some l \<Rightarrow> string_or_default (city_geo_id l))"

definition get_service_type :: "'a PublicMetadata_scheme \<Rightarrow> string" where
  "get_service_type metadata = string_or_default (service_type metadata)"

definition get_seconds :: "'a PublicMetadata_scheme \<Rightarrow> 64 word" where
  "get_seconds metadata =
     (case expiration metadata of None \<Rightarrow> 0 | Some t \<Rightarrow> int_or_default (seconds t))"

definition get_nanos :: "'a PublicMetadata_scheme \<Rightarrow> 32 word" where
  "get_nanos metadata =
     (case expiration metadata of None \<Rightarrow> 0 | Some t \<Rightarrow> int_or_default (nanos t))"

text \<open>\<open>absl::StrCat\<close> of a signed integer: its decimal rendering, with a minus sign.\<close>

definition digit_char :: "nat \<Rightarrow> char" where
  "digit_char d = ''0123456789'' ! d"

fun decimal :: "nat \<Rightarrow> string" where
  "decimal n = (if n < 10 then [digit_char n] else decimal (n div 10) @ [digit_char (n mod 10)])"

definition StrCat_int :: "int \<Rightarrow> string" where
  "StrCat_int v = (if v < 0 then CHR ''-'' # decimal (nat (- v)) else decimal (nat v))"

text \<open>\<open>OmitDefault\<close>, at the signed integer types \<open>int64_t\<close> and \<open>int32_t\<close>.\<close>

definition OmitDefault :: "'a::len word \<Rightarrow> string" where
  "OmitDefault v = (if v = 0 then [] else StrCat_int (sint v))"

text \<open>\<open>absl::BytesToHexString\<close>: two lower-case hexadecimal digits for each byte.\<close>

definition hex_char :: "nat \<Rightarrow> char" where
  "hex_char d = ''0123456789abcdef'' ! d"

definition BytesToHexString :: "byte list \<Rightarrow> string" where
  "BytesToHexString bs = concat (map (\<lambda>b. [hex_char (unat b div 16), hex_char (unat b mod 16)]) bs)"

text \<open>
  \<open>absl::SimpleHexAtoi\<close> at \<open>uint64_t\<close>: white space is stripped at both ends, a sign is
  read (a negative number is refused), a prefix \<open>0x\<close> or \<open>0X\<close> is dropped, and the digits
  are accumulated in base 16 with an overflow check before each step. \<open>None\<close> is the
  result \<open>false\<close>.
\<close>

definition ascii_isspace :: "char \<Rightarrow> bool" where
  "ascii_isspace c = (let n = (of_char c :: nat) in n = 32 \<or> (9 \<le> n \<and> n \<le> 13))"

definition hex_value :: "char \<Rightarrow> nat option" where
  "hex_value c =
     (let n = (of_char c :: nat) in
      if 48 \<le> n \<and> n \<le> 57 then Some (n - 48)
      else if 97 \<le> n \<and> n \<le> 102 then Some (n - 87)
      else if 65 \<le> n \<and> n \<le> 70 then Some (n - 55)
      else None)"

definition uint64_max :: nat where
  "uint64_max = 2 ^ 64 - 1"

fun safe_parse_positive_int :: "string \<Rightarrow> nat \<Rightarrow> nat option" where
  "safe_parse_positive_int [] v = Some v"
| "safe_parse_positive_int (c # cs) v =
     (case hex_value c of
        None \<Rightarrow> None
      | Some d \<Rightarrow>
          if v > uint64_max div 16 then None
          else if v * 16 > uint64_max - d then None
          else safe_parse_positive_int cs (v * 16 + d))"

definition strip_sign :: "string \<Rightarrow> string option" where
  "strip_sign s =
     (case s of
        [] \<Rightarrow> None
      | c # cs \<Rightarrow>
          if c = CHR ''-'' then None
          else if c = CHR ''+'' then (if cs = [] then None else Some cs)
          else Some s)"

definition strip_hex_prefix :: "string \<Rightarrow> string option" where
  "strip_hex_prefix s =
     (case s of
        c0 # c1 # cs \<Rightarrow>
          if c0 = CHR ''0'' \<and> (c1 = CHR ''x'' \<or> c1 = CHR ''X'')
          then (if cs = [] then None else Some cs)
          else Some s
      | _ \<Rightarrow> Some s)"

definition SimpleHexAtoi :: "string \<Rightarrow> uint64 option" where
  "SimpleHexAtoi str =
     (let text = rev (dropWhile ascii_isspace (rev (dropWhile ascii_isspace str))) in
      case strip_sign text of
        None \<Rightarrow> None
      | Some t1 \<Rightarrow>
          (case strip_hex_prefix t1 of
             None \<Rightarrow> None
           | Some t2 \<Rightarrow> map_option of_nat (safe_parse_positive_int t2 0)))"

definition EVP_MAX_MD_SIZE :: nat where
  "EVP_MAX_MD_SIZE = 64"

text \<open>
  \<open>FingerprintPublicMetadata\<close>. The hash of OpenSSL is a parameter: \<open>EVP_Digest_sha256 input\<close>
  is \<open>None\<close> when \<open>EVP_Digest\<close> does not return 1, and otherwise the digest bytes it writes
  to the front of the zero-filled buffer of \<open>EVP_MAX_MD_SIZE\<close> bytes. The result is the
  error status (\<open>Inl\<close>) or the value stored through the \<open>fingerprint\<close> pointer (\<open>Inr\<close>).
\<close>

definition fingerprint_input :: "'a PublicMetadata_scheme \<Rightarrow> string" where
  "fingerprint_input metadata =
     get_country metadata @ get_city_geo_id metadata @ get_service_type metadata @
     OmitDefault (get_seconds metadata) @ OmitDefault (get_nanos metadata)"

definition fingerprint_of_input :: "(string \<Rightarrow> byte list option) \<Rightarrow> string \<Rightarrow> Status + uint64" where
  "fingerprint_of_input EVP_Digest_sha256 input =
     (let digest = replicate EVP_MAX_MD_SIZE (0 :: byte) in
      case EVP_Digest_sha256 input of
        None \<Rightarrow> Inl (InternalError ''EVP_Digest failed'')
      | Some md \<Rightarrow>
          (let digest = md @ drop (length md) digest;
               hex_hash = BytesToHexString digest
           in case SimpleHexAtoi (take 16 hex_hash) of
                None \<Rightarrow> Inl (InternalError ''SimpleHexAtoi failed'')
              | Some fingerprint \<Rightarrow> Inr fingerprint))"

definition FingerprintPublicMetadata ::
    "(string \<Rightarrow> byte list option) \<Rightarrow> 'a PublicMetadata_scheme \<Rightarrow> Status + uint64" where
  "FingerprintPublicMetadata EVP_Digest_sha256 metadata =
     fingerprint_of_input EVP_Digest_sha256 (fingerprint_input metadata)"

text \<open>
  The fingerprint as the specification words it: the fields in tag order, a field that
  is 0 or empty contributing nothing, hashed, and the first eight bytes of the digest
  read as a big-endian number.
\<close>

definition spec_field_text :: "'a::len word \<Rightarrow> string" where
  "spec_field_text v = (if sint v = 0 then [] else StrCat_int (sint v))"

definition spec_fingerprint_input :: "'a PublicMetadata_scheme \<Rightarrow> string" where
  "spec_fingerprint_input metadata =
     concat [get_country metadata, get_city_geo_id metadata, get_service_type metadata,
             spec_field_text (get_seconds metadata), spec_field_text (get_nanos metadata)]"

definition spec_fingerprint_of_digest :: "byte list \<Rightarrow> uint64" where
  "spec_fingerprint_of_digest md = of_nat (be_nat (take 8 md))"

text \<open>
  The message of the scenario in session\_test.cc, with every default written out and with
  every default left out, and two messages that differ only in where the boundary between
  country and city lies.
\<close>

definition scenario_metadata_explicit :: PublicMetadata where
  "scenario_metadata_explicit =
     \<lparr>exit_location = Some \<lparr>country = Some ''US'', city_geo_id = Some ''us_ca_san_diego''\<rparr>,
      service_type = Some ''service_type'',
      expiration = Some \<lparr>seconds = Some 900, nanos = Some 0\<rparr>,
      debug_mode = Some 0\<rparr>"

definition scenario_metadata_omitted :: PublicMetadata where
  "scenario_metadata_omitted =
     \<lparr>exit_location = Some \<lparr>country = Some ''US'', city_geo_id = Some ''us_ca_san_diego''\<rparr>,
      service_type = Some ''service_type'',
      expiration = Some \<lparr>seconds = Some 900, nanos = None\<rparr>,
      debug_mode = None\<rparr>"

definition metadata_USA :: PublicMetadata where
  "metadata_USA =
     \<lparr>exit_location = Some \<lparr>country = Some ''USA'', city_geo_id = Some []\<rparr>,
      service_type = None, expiration = None, debug_mode = None\<rparr>"

definition metadata_US_A :: PublicMetadata where
  "metadata_US_A =
     \<lparr>exit_location = Some \<lparr>country = Some ''US'', city_geo_id = Some ''A''\<rparr>,
      service_type = None, expiration = None, debug_mode = None\<rparr>"

text \<open>
  A stand-in for the hash with the output size of SHA-256, to run the fingerprint on a
  concrete message: the first 32 bytes of the input followed by \<open>z\<close>s.
\<close>

definition first_32_bytes_digest :: "string \<Rightarrow> byte list option" where
  "first_32_bytes_digest input = Some (map of_char (take 32 (input @ replicate 32 (CHR ''z''))))"

section \<open>Packet pool (krypton/datapath/ipsec/ipsec\_packet\_pool.cc)\<close>

definition kPacketPoolSize :: nat where
  "kPacketPoolSize = 400"

text \<open>\<open>kBorrowWaitTimeout\<close>, in milliseconds; time is a number of milliseconds.\<close>

definition kBorrowWaitTimeout :: nat where
  "kBorrowWaitTimeout = 50"

text \<open>
  A packet is named by its index in the vector \<open>pool_\<close>, which is what an
  \<open>IpSecPacket*\<close> into the vector is. \<open>use_count\<close> is the number of live copies of the
  \<open>shared_ptr\<close> that \<open>Borrow\<close> returned for the packet, 0 when the packet is not on loan.
\<close>

record IpSecPacketPool =
  pool :: "nat list"
  available :: "nat list"
  use_count :: "nat \<Rightarrow> nat"

text \<open>The constructor: \<open>pool_(kPacketPoolSize)\<close>, then every packet is pushed to \<open>available_\<close>.\<close>

definition IpSecPacketPool_new :: IpSecPacketPool where
  "IpSecPacketPool_new =
     (let packets = [0..<kPacketPoolSize] in
      \<lparr>pool = packets, available = foldl (\<lambda>av packet. av @ [packet]) [] packets,
       use_count = (\<lambda>_. 0)\<rparr>)"

definition Return :: "nat \<Rightarrow> IpSecPacketPool \<Rightarrow> IpSecPacketPool" where
  "Return packet s = s\<lparr>available := available s @ [packet]\<rparr>"

text \<open>
  The end of \<open>Borrow\<close>, reached with \<open>available_\<close> not empty: the last packet is popped and
  wrapped in a \<open>shared_ptr\<close> whose deleter is \<open>Return\<close>.
\<close>

definition take_back :: "IpSecPacketPool \<Rightarrow> nat \<times> IpSecPacketPool" where
  "take_back s =
     (let packet = last (available s) in
      (packet, s\<lparr>available := butlast (available s), use_count := (use_count s)(packet := 1)\<rparr>))"

text \<open>
  Copying and destroying a handle (\<open>std::shared_ptr\<close>): the deleter runs when the last
  copy goes. There is no handle to copy or destroy for a packet that is not on loan.
\<close>

definition copy_handle :: "nat \<Rightarrow> IpSecPacketPool \<Rightarrow> IpSecPacketPool" where
  "copy_handle packet s =
     (if use_count s packet = 0 then s
      else s\<lparr>use_count := (use_count s)(packet := use_count s packet + 1)\<rparr>)"

definition release_handle :: "nat \<Rightarrow> IpSecPacketPool \<Rightarrow> IpSecPacketPool" where
  "release_handle packet s =
     (if use_count s packet = 0 then s
      else if use_count s packet = 1
        then Return packet (s\<lparr>use_count := (use_count s)(packet := 0)\<rparr>)
      else s\<lparr>use_count := (use_count s)(packet := use_count s packet - 1)\<rparr>)"

text \<open>
  What other threads do to the pool while a borrower waits on the condition variable:
  they copy and destroy handles, and a second borrower takes a packet when there is one.
\<close>

datatype pool_op = ReleaseHandle nat | CopyHandle nat | BorrowNoWait

fun other_thread :: "IpSecPacketPool \<Rightarrow> pool_op \<Rightarrow> IpSecPacketPool" where
  "other_thread s (ReleaseHandle packet) = release_handle packet s"
| "other_thread s (CopyHandle packet) = copy_handle packet s"
| "other_thread s BorrowNoWait = (if available s = [] then s else snd (take_back s))"

text \<open>
  \<open>Borrow\<close>. Each call of \<open>WaitWithDeadline\<close> is one round: the mutex is released, the other
  threads run the operations of the round, and the wait ends at the time of the round; it
  returns true when the deadline has passed by then. \<open>Blocked\<close> is a call that is still
  waiting after the last round given; \<open>Null\<close> is the null handle.
\<close>

datatype borrow_result = Packet nat | Null | Blocked

type_synonym wait_round = "pool_op list \<times> nat"

fun Borrow_wait ::
    "nat \<Rightarrow> wait_round list \<Rightarrow> IpSecPacketPool \<Rightarrow> borrow_result \<times> IpSecPacketPool" where
  "Borrow_wait deadline [] s =
     (if available s = [] then (Blocked, s)
      else (Packet (fst (take_back s)), snd (take_back s)))"
| "Borrow_wait deadline ((ops, woken_at) # rounds) s =
     (if available s = []
      then (let s' = foldl other_thread s ops in
            if deadline \<le> woken_at then (Null, s') else Borrow_wait deadline rounds s')
      else (Packet (fst (take_back s)), snd (take_back s)))"

definition Borrow ::
    "nat \<Rightarrow> wait_round list \<Rightarrow> IpSecPacketPool \<Rightarrow> borrow_result \<times> IpSecPacketPool" where
  "Borrow now rounds s = (let deadline = now + kBorrowWaitTimeout in Borrow_wait deadline rounds s)"

text \<open>The calls a client makes on a pool, and the pool after a sequence of them.\<close>

datatype pool_call = CallBorrow nat "wait_round list" | CallHandle pool_op

fun pool_step :: "IpSecPacketPool \<Rightarrow> pool_call \<Rightarrow> IpSecPacketPool" where
  "pool_step s (CallBorrow now rounds) = snd (Borrow now rounds s)"
| "pool_step s (CallHandle op) = other_thread s op"

definition pool_run :: "pool_call list \<Rightarrow> IpSecPacketPool" where
  "pool_run calls = foldl pool_step IpSecPacketPool_new calls"

text \<open>
  The invariant of the pool: the vector is the one the constructor made, and the available
  packets are, without repetition, the packets of the vector that are not on loan.
\<close>

definition pool_inv :: "IpSecPacketPool \<Rightarrow> bool" where
  "pool_inv s =
     (pool s = [0..<kPacketPoolSize] \<and> distinct (available s) \<and>
      (\<forall>packet. packet \<in> set (available s) \<longleftrightarrow>
         packet < kPacketPoolSize \<and> use_count s packet = 0) \<and>
      (\<forall>packet. use_count s packet = 0 \<or> packet < kPacketPoolSize))"

section \<open>Session (krypton/session.cc, exercised by krypton/session\_test.cc)\<close>

text \<open>
  Modelled from the spec: session.cc and utils/status.cc are not among the source files;
  only session\_test.cc and the declarations of utils/status.h are. The state machine
  below follows section 4.5 of the specification (the operations and the transition
  table), with the values session\_test.cc fixes (the configuration of the fixture, the
  initial MTU values, the order of the endpoint families). What the collaborators answer
  (the status of \<open>CreateTunnel\<close>, of the start of the datapath, of \<open>SetKeyMaterials\<close>) is an
  argument of the operation that asks. Everything the session does to its collaborators is
  appended to \<open>effects\<close>.
\<close>

datatype State =
  kInitialized | kEgressSessionCreated | kControlPlaneConnected | kDataPlaneConnecting |
  kDataPlaneConnected | kSessionError | kPermanentError | kStopped

datatype NetworkType = CELLULAR | WIFI | UNKNOWN_TYPE

record NetworkInfo =
  network_id :: nat
  network_type :: NetworkType

datatype IPProtocol = kIPv4 | kIPv6

text \<open>Modelled from the spec: the options of KryptonConfig the session reads; durations in ms.\<close>

record KryptonConfig =
  rekey_duration :: nat
  datapath_connecting_timer_enabled :: bool
  datapath_connecting_timer_duration :: nat
  datapath_reattempt_delay :: nat
  max_datapath_reattempts :: nat

text \<open>
  Modelled from the spec: the configuration of the test fixture, with the defaults of
  section 3 (rekey after 24 h, reattempt after 500 ms, at most 4 reattempts).
\<close>

definition test_config :: KryptonConfig where
  "test_config =
     \<lparr>rekey_duration = 86400000, datapath_connecting_timer_enabled = True,
      datapath_connecting_timer_duration = 10000, datapath_reattempt_delay = 500,
      max_datapath_reattempts = 4\<rparr>"

datatype Notification =
  ControlPlaneConnected
| ControlPlaneDisconnected Status
| PermanentFailure Status
| DatapathConnecting
| DatapathConnected
| DatapathDisconnected "NetworkInfo option" Status

datatype Effect =
  Notify Notification
| StartTimer nat nat
| CancelTimer nat
| Provision_Start
| Provision_Rekey
| Provision_Stop
| Datapath_Start
| Datapath_Stop
| Datapath_SwitchNetwork IPProtocol NetworkInfo
| Datapath_SetKeyMaterials
| Datapath_PrepareForTunnelSwitch
| Datapath_SwitchTunnel
| VpnService_CreateTunnel nat
| HttpFetcher_PostUpdatePathInfo nat nat

record Session =
  state :: State
  latest_status :: Status
  active_network_info :: "NetworkInfo option"
  datapath_reattempt_count :: nat
  datapath_reattempt_timer_id :: "nat option"
  datapath_connecting_timer_id :: "nat option"
  rekey_timer_id :: "nat option"
  endpoint_family_cursor :: IPProtocol
  latest_datapath_status :: Status
  uplink_mtu :: nat
  downlink_mtu :: nat
  tunnel_mtu :: nat
  successful_rekeys :: nat
  next_timer_id :: nat
  effects :: "Effect list"

text \<open>
  Modelled from the spec: the session after construction. A timer id of \<open>None\<close> is the
  invalid id -1 of the tests; the tunnel MTU of 1395 is the one of \<open>GetTunFdData\<close>.
\<close>

definition Session_new :: Session where
  "Session_new =
     \<lparr>state = kInitialized, latest_status = OkStatus, active_network_info = None,
      datapath_reattempt_count = 0, datapath_reattempt_timer_id = None,
      datapath_connecting_timer_id = None, rekey_timer_id = None,
      endpoint_family_cursor = kIPv6, latest_datapath_status = OkStatus,
      uplink_mtu = 0, downlink_mtu = 0, tunnel_mtu = 1395, successful_rekeys = 0,
      next_timer_id = 0, effects = []\<rparr>"

text \<open>
  Modelled from the spec: \<open>IsPermanentError\<close> is declared in utils/status.h and defined
  in a file that is not there. Section 7: the permanent set is "currently
  VPN\_PERMISSION\_REVOKED", and "permanence is derived from this field, not from the
  text".
\<close>

definition IsPermanentError :: "Status \<Rightarrow> bool" where
  "IsPermanentError st =
     (case ppn_details st of
        None \<Rightarrow> False
      | Some d \<Rightarrow> (case d of VPN_PERMISSION_REVOKED \<Rightarrow> True | _ \<Rightarrow> False))"

text \<open>\<open>CreateVpnRevokedError\<close> of session\_test.cc.\<close>

definition CreateVpnRevokedError :: Status where
  "CreateVpnRevokedError =
     (FailedPreconditionError ''vpn permission revoked'')\<lparr>ppn_details := Some VPN_PERMISSION_REVOKED\<rparr>"

definition DeadlineExceededError :: "string \<Rightarrow> Status" where
  "DeadlineExceededError msg = \<lparr>code = kUnavailable, message = msg, ppn_details = None\<rparr>"

text \<open>Modelled from the spec: effects, and the timer interface of section 4.1.\<close>

definition emit :: "Effect \<Rightarrow> Session \<Rightarrow> Session" where
  "emit e s = s\<lparr>effects := effects s @ [e]\<rparr>"

definition notify :: "Notification \<Rightarrow> Session \<Rightarrow> Session" where
  "notify n s = emit (Notify n) s"

definition start_timer :: "nat \<Rightarrow> Session \<Rightarrow> Session" where
  "start_timer duration s =
     emit (StartTimer (next_timer_id s) duration) (s\<lparr>next_timer_id := Suc (next_timer_id s)\<rparr>)"

definition cancel_timer :: "nat option \<Rightarrow> Session \<Rightarrow> Session" where
  "cancel_timer timer s = (case timer of None \<Rightarrow> s | Some t \<Rightarrow> emit (CancelTimer t) s)"

definition CancelRekeyTimer :: "Session \<Rightarrow> Session" where
  "CancelRekeyTimer s = (cancel_timer (rekey_timer_id s) s)\<lparr>rekey_timer_id := None\<rparr>"

definition CancelDatapathConnectingTimer :: "Session \<Rightarrow> Session" where
  "CancelDatapathConnectingTimer s =
     (cancel_timer (datapath_connecting_timer_id s) s)\<lparr>datapath_connecting_timer_id := None\<rparr>"

definition CancelDatapathReattemptTimer :: "Session \<Rightarrow> Session" where
  "CancelDatapathReattemptTimer s =
     (cancel_timer (datapath_reattempt_timer_id s) s)\<lparr>datapath_reattempt_timer_id := None\<rparr>"

definition StartRekeyTimer :: "KryptonConfig \<Rightarrow> Session \<Rightarrow> Session" where
  "StartRekeyTimer cfg s =
     (let s1 = CancelRekeyTimer s in
      (start_timer (rekey_duration cfg) s1)\<lparr>rekey_timer_id := Some (next_timer_id s1)\<rparr>)"

definition StartDatapathConnectingTimer :: "KryptonConfig \<Rightarrow> Session \<Rightarrow> Session" where
  "StartDatapathConnectingTimer cfg s =
     (if datapath_connecting_timer_enabled cfg
      then (let s1 = CancelDatapathConnectingTimer s in
            (start_timer (datapath_connecting_timer_duration cfg) s1)
              \<lparr>datapath_connecting_timer_id := Some (next_timer_id s1)\<rparr>)
      else s)"

definition StartDatapathReattemptTimer :: "KryptonConfig \<Rightarrow> Session \<Rightarrow> Session" where
  "StartDatapathReattemptTimer cfg s =
     (let s1 = CancelDatapathReattemptTimer s in
      (start_timer (datapath_reattempt_delay cfg) s1)
        \<lparr>datapath_reattempt_timer_id := Some (next_timer_id s1)\<rparr>)"

text \<open>
  Modelled from the spec: invariant (I6), "every state transition records
  \<open>latest_status\<close>", and section 3, "terminal states \<open>Stopped\<close> and \<open>PermanentError\<close>".
\<close>

definition SetState :: "State \<Rightarrow> Status \<Rightarrow> Session \<Rightarrow> Session" where
  "SetState new_state st s = s\<lparr>state := new_state, latest_status := st\<rparr>"

definition terminal :: "Session \<Rightarrow> bool" where
  "terminal s = (state s = kStopped \<or> state s = kPermanentError)"

text \<open>Modelled from the spec: "state \<ge> \<open>ControlPlaneConnected\<close>" of \<open>SetNetwork\<close>.\<close>

definition control_plane_up :: "Session \<Rightarrow> bool" where
  "control_plane_up s =
     (state s = kControlPlaneConnected \<or> state s = kDataPlaneConnecting \<or>
      state s = kDataPlaneConnected)"

definition datapath_up :: "Session \<Rightarrow> bool" where
  "datapath_up s = (state s = kDataPlaneConnecting \<or> state s = kDataPlaneConnected)"

text \<open>
  Modelled from the spec: section 7, a failure "with \<open>permanent=false\<close> \<rightarrow> state
  \<open>SessionError\<close> \<rightarrow> emit \<open>ControlPlaneDisconnected(status)\<close>", "with \<open>permanent=true\<close>
  \<rightarrow> state \<open>PermanentError\<close> \<rightarrow> emit \<open>PermanentFailure(status)\<close>".
\<close>

definition FailWithStatus :: "Status \<Rightarrow> bool \<Rightarrow> Session \<Rightarrow> Session" where
  "FailWithStatus st permanent s =
     (if permanent then notify (PermanentFailure st) (SetState kPermanentError st s)
      else notify (ControlPlaneDisconnected st) (SetState kSessionError st s))"

text \<open>
  Modelled from the spec: the row "\<open>SetNetwork(ni)\<close>, \<open>CreateTunnel\<close> ok: build+start
  datapath; arm DataPlaneConnecting timer; notify \<open>DatapathConnecting\<close>", state
  \<open>DataPlaneConnecting\<close>. (I5): no \<open>SwitchNetwork\<close> without an active network.
\<close>

definition SwitchDatapath :: "KryptonConfig \<Rightarrow> Session \<Rightarrow> Session" where
  "SwitchDatapath cfg s =
     (case active_network_info s of
        None \<Rightarrow> s
      | Some ni \<Rightarrow>
          (let s1 = emit (Datapath_SwitchNetwork (endpoint_family_cursor s) ni) s;
               s2 = StartDatapathConnectingTimer cfg s1
           in notify DatapathConnecting (SetState kDataPlaneConnecting OkStatus s2)))"

text \<open>
  Modelled from the spec: "Tunnel creation that fails with \<open>VPN_PERMISSION_REVOKED\<close> detail
  is treated as permanent"; any other failure of the tunnel is a control-plane disconnect.
\<close>

definition CreateTunnelThen ::
    "Status \<Rightarrow> (Session \<Rightarrow> Session) \<Rightarrow> Session \<Rightarrow> Session" where
  "CreateTunnelThen tunnel_status continue s =
     (let s1 = emit (VpnService_CreateTunnel (tunnel_mtu s)) s in
      if ok tunnel_status then continue s1
      else FailWithStatus tunnel_status (IsPermanentError tunnel_status) s1)"

text \<open>Modelled from the spec: "\<open>Start()\<close> \<midarrow> valid only from \<open>Initialized\<close>; begins Provision".\<close>

definition Start :: "Session \<Rightarrow> Session" where
  "Start s = (if state s = kInitialized then emit Provision_Start s else s)"

text \<open>Modelled from the spec: "transitions to \<open>EgressSessionCreated\<close> on \<open>ReadyForAddEgress\<close>".\<close>

definition ReadyForAddEgress :: "bool \<Rightarrow> Session \<Rightarrow> Session" where
  "ReadyForAddEgress is_rekey s =
     (if \<not> is_rekey \<and> state s = kInitialized then SetState kEgressSessionCreated OkStatus s
      else s)"

text \<open>
  Modelled from the spec: the row "\<open>EgressSessionCreated\<close>, \<open>Provisioned\<close>: notify
  \<open>ControlPlaneConnected\<close>; arm rekey timer; if buffered network goto
  \<open>DataPlaneConnecting\<close>", after the datapath is started with the descriptor (the status it
  answers is \<open>datapath_status\<close>; the test \<open>DatapathInitFailure\<close> has the session in
  \<open>SessionError\<close> when it fails). For a rekey, \<open>DoRekey\<close>: "On \<open>Provisioned(is_rekey=true)\<close>,
  calls \<open>datapath.SetKeyMaterials\<close>; on success increments \<open>successful_rekeys\<close> and rearms
  the rekey timer. On failure, treats as control-plane disconnect".
\<close>

definition Provisioned :: "KryptonConfig \<Rightarrow> bool \<Rightarrow> Status \<Rightarrow> Status \<Rightarrow> Session \<Rightarrow> Session" where
  "Provisioned cfg is_rekey datapath_status tunnel_status s =
     (if is_rekey then
        (if control_plane_up s then
           (let s1 = emit Datapath_SetKeyMaterials s in
            if ok datapath_status
            then StartRekeyTimer cfg (s1\<lparr>successful_rekeys := Suc (successful_rekeys s1)\<rparr>)
            else FailWithStatus datapath_status (IsPermanentError datapath_status) s1)
         else s)
      else if state s = kEgressSessionCreated then
        (let s1 = emit Datapath_Start s in
         if ok datapath_status then
           (let s2 = notify ControlPlaneConnected (SetState kControlPlaneConnected OkStatus s1);
                s3 = StartRekeyTimer cfg s2
            in case active_network_info s3 of
                 None \<Rightarrow> s3
               | Some ni \<Rightarrow> CreateTunnelThen tunnel_status (SwitchDatapath cfg) s3)
         else FailWithStatus datapath_status (IsPermanentError datapath_status) s1)
      else s)"

text \<open>
  Modelled from the spec: the rows "\<open>ProvisioningFailure\<close>, !permanent: \<open>SessionError\<close>, notify
  \<open>ControlPlaneDisconnected\<close>" and "permanent: \<open>PermanentError\<close>, notify \<open>PermanentFailure\<close>".
\<close>

definition ProvisioningFailure :: "Status \<Rightarrow> bool \<Rightarrow> Session \<Rightarrow> Session" where
  "ProvisioningFailure st permanent s = (if terminal s then s else FailWithStatus st permanent s)"

text \<open>
  Modelled from the spec: "\<open>SetNetwork(ni)\<close> \<midarrow> records \<open>active_network_info = ni\<close>. If state
  \<ge> \<open>ControlPlaneConnected\<close>, attempts to bring up or switch the datapath onto \<open>ni\<close>. If
  state < \<open>ControlPlaneConnected\<close>, the request is buffered". The tunnel is created on the
  way from \<open>ControlPlaneConnected\<close> (the rows of the table); the test
  \<open>SwitchNetworkToSameNetworkType\<close> expects no new tunnel once the datapath is up.
\<close>

definition SetNetwork :: "KryptonConfig \<Rightarrow> NetworkInfo \<Rightarrow> Status \<Rightarrow> Session \<Rightarrow> Session" where
  "SetNetwork cfg ni tunnel_status s =
     (let s1 = s\<lparr>active_network_info := Some ni\<rparr> in
      if state s = kControlPlaneConnected then CreateTunnelThen tunnel_status (SwitchDatapath cfg) s1
      else if datapath_up s then SwitchDatapath cfg s1
      else s1)"

text \<open>
  Modelled from the spec: "\<open>SetNoNetworkAvailable()\<close> \<midarrow> clears \<open>active_network_info\<close>;
  cancels reattempt timer; if datapath exists, issues \<open>Stop\<close> on it; state \<rightarrow>
  \<open>ControlPlaneConnected\<close>".
\<close>

definition SetNoNetworkAvailable :: "Session \<Rightarrow> Session" where
  "SetNoNetworkAvailable s =
     (let s1 = CancelDatapathReattemptTimer (s\<lparr>active_network_info := None\<rparr>) in
      if datapath_up s then SetState kControlPlaneConnected OkStatus (emit Datapath_Stop s1)
      else s1)"

text \<open>
  Modelled from the spec: "\<open>DatapathEstablished()\<close> \<midarrow> inbound notification from the
  datapath. Cancels the datapath-connecting timer, resets \<open>reattempt_count\<close>, transitions to
  \<open>DataPlaneConnected\<close>, emits \<open>DatapathConnected\<close>"; "a successful \<open>DatapathEstablished\<close>
  resets the counter and the cursor"; the test \<open>DatapathFailureAndSuccessfulBeforeReattempt\<close>
  finds no reattempt timer afterwards. The transition is the row of the table from
  \<open>DataPlaneConnecting\<close> (and a repeated notification in \<open>DataPlaneConnected\<close>).
\<close>

definition DatapathEstablished :: "Session \<Rightarrow> Session" where
  "DatapathEstablished s =
     (let s1 = CancelDatapathConnectingTimer s;
          s2 = CancelDatapathReattemptTimer s1;
          s3 = s2\<lparr>datapath_reattempt_count := 0, endpoint_family_cursor := kIPv6\<rparr>
      in if datapath_up s then notify DatapathConnected (SetState kDataPlaneConnected OkStatus s3)
         else s3)"

text \<open>
  Modelled from the spec: "\<open>DatapathFailed(status)\<close> \<midarrow> schedules a reattempt: arms a timer
  for \<open>datapath_reattempt_delay\<close> and increments \<open>reattempt_count\<close>. If \<open>reattempt_count >
  max_datapath_reattempts\<close>, emits \<open>DatapathDisconnected(network, status)\<close> and clears the
  datapath; otherwise state stays \<open>DataPlaneConnecting\<close>". The count is incremented and
  stored, and the stored count is compared with the limit. The timer is armed where the
  session reattempts: the rows of the table are "count < max: arm reattempt timer" and
  "count \<ge> max: \<open>ControlPlaneConnected\<close>, notify \<open>DatapathDisconnected\<close>", and the test
  \<open>DatapathReattemptFailure\<close> has no timer started by the fifth failure.
\<close>

definition HandleDatapathFailure :: "KryptonConfig \<Rightarrow> Status \<Rightarrow> Session \<Rightarrow> Session" where
  "HandleDatapathFailure cfg st s =
     (let s1 = s\<lparr>latest_datapath_status := st,
                  datapath_reattempt_count := Suc (datapath_reattempt_count s)\<rparr>
      in if datapath_reattempt_count s1 > max_datapath_reattempts cfg then
           (let s2 = notify (DatapathDisconnected (active_network_info s1) st) s1;
                s3 = CancelDatapathReattemptTimer (CancelDatapathConnectingTimer s2)
            in SetState kControlPlaneConnected st (emit Datapath_Stop s3))
         else SetState kDataPlaneConnecting st (StartDatapathReattemptTimer cfg s1))"

definition DatapathFailed :: "KryptonConfig \<Rightarrow> Status \<Rightarrow> Session \<Rightarrow> Session" where
  "DatapathFailed cfg st s = (if datapath_up s then HandleDatapathFailure cfg st s else s)"

text \<open>
  Modelled from the spec: "\<open>DatapathPermanentFailure(status)\<close> \<midarrow> emits
  \<open>DatapathDisconnected\<close>; no reattempt".
\<close>

definition DatapathPermanentFailure :: "Status \<Rightarrow> Session \<Rightarrow> Session" where
  "DatapathPermanentFailure st s =
     (if datapath_up s then
        CancelDatapathReattemptTimer
          (notify (DatapathDisconnected (active_network_info s) st)
             (s\<lparr>latest_datapath_status := st\<rparr>))
      else s)"

text \<open>
  Modelled from the spec: "\<open>AttemptDatapathReconnect()\<close> \<midarrow> invoked by the reattempt timer;
  alternates the endpoint cursor between IPv6 and IPv4 (first attempt uses IPv6 when
  present), calls \<open>SwitchNetwork\<close> again".
\<close>

definition other_family :: "IPProtocol \<Rightarrow> IPProtocol" where
  "other_family f = (case f of kIPv4 \<Rightarrow> kIPv6 | kIPv6 \<Rightarrow> kIPv4)"

definition AttemptDatapathReconnect :: "KryptonConfig \<Rightarrow> Session \<Rightarrow> Session" where
  "AttemptDatapathReconnect cfg s =
     (if state s = kDataPlaneConnecting \<and> active_network_info s \<noteq> None then
        (let s1 = SwitchDatapath cfg (s\<lparr>datapath_reattempt_timer_id := None\<rparr>)
         in s1\<lparr>endpoint_family_cursor := other_family (endpoint_family_cursor s)\<rparr>)
      else s)"

text \<open>Modelled from the spec: "\<open>DoRekey()\<close> \<midarrow> calls \<open>Provision.Rekey()\<close>".\<close>

definition DoRekey :: "Session \<Rightarrow> Session" where
  "DoRekey s = (if control_plane_up s then emit Provision_Rekey s else s)"

text \<open>
  Modelled from the spec: "Timer expiries drive rekey and reconnection backoff": the rows
  "\<open>RekeyTimer\<close> expiry: \<open>Provision.Rekey\<close>" and "\<open>DatapathConnecting\<close> timer expiry: schedule
  reattempt", and the reattempt timer, which invokes \<open>AttemptDatapathReconnect\<close>. A timer
  that has fired is no longer armed; an id the session does not hold is ignored.
\<close>

definition TimerExpiry :: "KryptonConfig \<Rightarrow> nat \<Rightarrow> Session \<Rightarrow> Session" where
  "TimerExpiry cfg timer_id s =
     (if rekey_timer_id s = Some timer_id then DoRekey (s\<lparr>rekey_timer_id := None\<rparr>)
      else if datapath_connecting_timer_id s = Some timer_id then
        (let s1 = s\<lparr>datapath_connecting_timer_id := None\<rparr> in
         if state s1 = kDataPlaneConnecting
         then HandleDatapathFailure cfg (DeadlineExceededError ''Timeout waiting for datapath'') s1
         else s1)
      else if datapath_reattempt_timer_id s = Some timer_id then AttemptDatapathReconnect cfg s
      else s)"

text \<open>
  Modelled from the spec: "\<open>DoUplinkMtuUpdate(uplink_mtu, tunnel_mtu)\<close> \<midarrow> only honored in
  \<open>DataPlaneConnected\<close>. Calls \<open>datapath.PrepareForTunnelSwitch()\<close>, rebuilds \<open>TunFdData\<close> with
  the new tunnel MTU via the VPN service, then calls \<open>datapath.SwitchTunnel()\<close>. Failure to
  rebuild the tunnel \<rightarrow> \<open>ControlPlaneDisconnected(status)\<close> (or \<open>PermanentFailure\<close> if
  permanent)".
\<close>

definition DoUplinkMtuUpdate :: "nat \<Rightarrow> nat \<Rightarrow> Status \<Rightarrow> Session \<Rightarrow> Session" where
  "DoUplinkMtuUpdate new_uplink_mtu new_tunnel_mtu tunnel_status s =
     (if state s \<noteq> kDataPlaneConnected then s
      else
        (let s1 = s\<lparr>uplink_mtu := new_uplink_mtu, tunnel_mtu := new_tunnel_mtu\<rparr>;
             s2 = emit Datapath_PrepareForTunnelSwitch s1
         in CreateTunnelThen tunnel_status (emit Datapath_SwitchTunnel) s2))"

text \<open>
  Modelled from the spec: "\<open>DoDownlinkMtuUpdate(downlink_mtu)\<close> \<midarrow> only honored in
  \<open>DataPlaneConnected\<close>. Records the value and POSTs update-path-info \<dots> Non-2xx is logged
  but does not disconnect".
\<close>

definition DoDownlinkMtuUpdate :: "nat \<Rightarrow> Session \<Rightarrow> Session" where
  "DoDownlinkMtuUpdate new_downlink_mtu s =
     (if state s \<noteq> kDataPlaneConnected then s
      else
        (let s1 = s\<lparr>downlink_mtu := new_downlink_mtu\<rparr>
         in emit (HttpFetcher_PostUpdatePathInfo (uplink_mtu s1) (downlink_mtu s1)) s1))"

text \<open>
  Modelled from the spec: "\<open>ForceTunnelUpdate()\<close> \<midarrow> rebuilds \<open>TunFdData\<close> and calls
  \<open>CreateTunnel\<close>; on permanent failure, emits \<open>PermanentFailure\<close>"; section 7, "Tunnel
  (re)creation failure during MTU/tunnel update \<rightarrow> \<open>ControlPlaneDisconnected\<close> unless
  permanent".
\<close>

definition ForceTunnelUpdate :: "Status \<Rightarrow> Session \<Rightarrow> Session" where
  "ForceTunnelUpdate tunnel_status s =
     (if control_plane_up s then CreateTunnelThen tunnel_status (\<lambda>s'. s') s else s)"

text \<open>
  Modelled from the spec: "\<open>Stop(force_fail_open)\<close> \<midarrow> cancels all timers, stops datapath,
  stops Provision, transitions to \<open>Stopped\<close>".
\<close>

definition Stop :: "bool \<Rightarrow> Session \<Rightarrow> Session" where
  "Stop force_fail_open s =
     (let s1 = CancelRekeyTimer s;
          s2 = CancelDatapathConnectingTimer s1;
          s3 = CancelDatapathReattemptTimer s2;
          s4 = emit Provision_Stop (emit Datapath_Stop s3)
      in SetState kStopped (latest_status s) s4)"

text \<open>
  Modelled from the spec: the inputs of the session, each with what the collaborators
  answer during the call, and the session after a sequence of them.
\<close>

datatype Event =
  EvStart
| EvReadyForAddEgress bool
| EvProvisioned bool Status Status
| EvProvisioningFailure Status bool
| EvSetNetwork NetworkInfo Status
| EvSetNoNetworkAvailable
| EvDatapathEstablished
| EvDatapathFailed Status
| EvDatapathPermanentFailure Status
| EvAttemptDatapathReconnect
| EvTimerExpiry nat
| EvDoRekey
| EvDoUplinkMtuUpdate nat nat Status
| EvDoDownlinkMtuUpdate nat
| EvForceTunnelUpdate Status
| EvStop bool

fun Session_step :: "KryptonConfig \<Rightarrow> Session \<Rightarrow> Event \<Rightarrow> Session" where
  "Session_step cfg s EvStart = Start s"
| "Session_step cfg s (EvReadyForAddEgress is_rekey) = ReadyForAddEgress is_rekey s"
| "Session_step cfg s (EvProvisioned is_rekey datapath_status tunnel_status) =
     Provisioned cfg is_rekey datapath_status tunnel_status s"
| "Session_step cfg s (EvProvisioningFailure st permanent) = ProvisioningFailure st permanent s"
| "Session_step cfg s (EvSetNetwork ni tunnel_status) = SetNetwork cfg ni tunnel_status s"
| "Session_step cfg s EvSetNoNetworkAvailable = SetNoNetworkAvailable s"
| "Session_step cfg s EvDatapathEstablished = DatapathEstablished s"
| "Session_step cfg s (EvDatapathFailed st) = DatapathFailed cfg st s"
| "Session_step cfg s (EvDatapathPermanentFailure st) = DatapathPermanentFailure st s"
| "Session_step cfg s EvAttemptDatapathReconnect = AttemptDatapathReconnect cfg s"
| "Session_step cfg s (EvTimerExpiry timer_id) = TimerExpiry cfg timer_id s"
| "Session_step cfg s EvDoRekey = DoRekey s"
| "Session_step cfg s (EvDoUplinkMtuUpdate new_uplink_mtu new_tunnel_mtu tunnel_status) =
     DoUplinkMtuUpdate new_uplink_mtu new_tunnel_mtu tunnel_status s"
| "Session_step cfg s (EvDoDownlinkMtuUpdate new_downlink_mtu) =
     DoDownlinkMtuUpdate new_downlink_mtu s"
| "Session_step cfg s (EvForceTunnelUpdate tunnel_status) = ForceTunnelUpdate tunnel_status s"
| "Session_step cfg s (EvStop force_fail_open) = Stop force_fail_open s"

definition Session_run :: "KryptonConfig \<Rightarrow> Event list \<Rightarrow> Session" where
  "Session_run cfg events = foldl (Session_step cfg) Session_new events"

text \<open>What a call added to the effects, and the effects that arm a timer.\<close>

definition new_effects :: "Session \<Rightarrow> Session \<Rightarrow> Effect list" where
  "new_effects s s' = drop (length (effects s)) (effects s')"

definition starts_timer :: "Effect \<Rightarrow> bool" where
  "starts_timer e = (case e of StartTimer timer_id duration \<Rightarrow> True | _ \<Rightarrow> False)"

definition switches_network :: "Effect \<Rightarrow> bool" where
  "switches_network e = (case e of Datapath_SwitchNetwork family ni \<Rightarrow> True | _ \<Rightarrow> False)"

definition rekey_timer_armed :: "Session \<Rightarrow> bool" where
  "rekey_timer_armed s = (rekey_timer_id s \<noteq> None)"

text \<open>The network and the events of the scenarios of session\_test.cc.\<close>

definition cellular_123 :: NetworkInfo where
  "cellular_123 = \<lparr>network_id = 123, network_type = CELLULAR\<rparr>"

definition control_plane_connected_events :: "Event list" where
  "control_plane_connected_events =
     [EvStart, EvReadyForAddEgress False, EvProvisioned False OkStatus OkStatus]"

definition datapath_connected_events :: "Event list" where
  "datapath_connected_events =
     control_plane_connected_events @ [EvSetNetwork cellular_123 OkStatus, EvDatapathEstablished]"


text \<open>
  The tests \<open>DatapathFailureAndSuccessfulBeforeReattempt\<close> and
  \<open>UplinkMtuUpdateHandlerDataPlaneDisconnected\<close>: a failure of the connected datapath; and a
  second failure after the first reattempt, with both datapath timers armed.
\<close>

definition datapath_failed_events :: "Event list" where
  "datapath_failed_events =
     datapath_connected_events @ [EvDatapathFailed (InternalError ''Some error'')]"

definition second_failure_events :: "Event list" where
  "second_failure_events =
     datapath_failed_events @
     [EvAttemptDatapathReconnect, EvDatapathFailed (InternalError ''Some error'')]"

section \<open>Properties of the sortable key encoding\<close>

lemma le_bytes_eq:
  "le_bytes x = [ucast x, ucast (drop_bit 8 x), ucast (drop_bit 16 x), ucast (drop_bit 24 x),
     ucast (drop_bit 32 x), ucast (drop_bit 40 x), ucast (drop_bit 48 x), ucast (drop_bit 56 x)]"
  by (simp add: le_bytes_def upt_rec)

lemma length_le_bytes: "length (le_bytes x) = 8"
  by (simp add: le_bytes_def)

lemma byte_masks:
  "(0xff :: uint64) = mask 8"
  "(0xff00 :: uint64) = push_bit 8 (mask 8)"
  "(0xff0000 :: uint64) = push_bit 16 (mask 8)"
  "(0xff000000 :: uint64) = push_bit 24 (mask 8)"
  by (simp_all add: mask_eq_exp_minus_1 push_bit_eq_mult)

lemma le_bytes_bswap64: "le_bytes (bswap64 x) = rev (le_bytes x)"
  unfolding le_bytes_eq bswap64_def byte_masks
  apply simp
  apply (intro conjI bit_word_eqI)
         apply (auto simp add: bit_simps)
  done

lemma bit_le_value:
  "bit (le_value bs) n \<longleftrightarrow> n < 64 \<and> n div 8 < length bs \<and> bit (bs ! (n div 8)) (n mod 8)"
proof (induction bs arbitrary: n)
  case Nil
  then show ?case by simp
next
  case (Cons b bs)
  show ?case
  proof (cases "n < 8")
    case True
    then show ?thesis by (simp add: bit_simps)
  next
    case False
    have d: "n div 8 = Suc ((n - 8) div 8)" and m: "n mod 8 = (n - 8) mod 8"
      using False by (simp_all add: le_div_geq le_mod_geq)
    have nb: "\<not> bit b n" using False by (auto dest: bit_imp_le_length)
    show ?thesis
      using False nb by (auto simp add: bit_simps Cons.IH d m)
  qed
qed

lemma le_value_le_bytes: "le_value (le_bytes x) = x"
proof (rule bit_word_eqI)
  fix n assume "n < LENGTH(64)"
  then have n: "n < 64" by simp
  then have d: "n div 8 < 8" by simp
  have "le_bytes x ! (n div 8) = ucast (drop_bit (8 * (n div 8)) x)"
    using d by (simp add: le_bytes_def)
  then show "bit (le_value (le_bytes x)) n = bit x n"
    using n d by (simp add: bit_le_value length_le_bytes bit_simps)
qed

lemma bswap64_eq: "bswap64 x = le_value (rev (le_bytes x))"
  using le_value_le_bytes [of "bswap64 x"] by (simp add: le_bytes_bswap64)

lemma bswap64_bswap64: "bswap64 (bswap64 x) = x"
proof -
  have "le_bytes (bswap64 (bswap64 x)) = le_bytes x"
    by (simp add: le_bytes_bswap64)
  then have "le_value (le_bytes (bswap64 (bswap64 x))) = le_value (le_bytes x)"
    by simp
  then show ?thesis by (simp only: le_value_le_bytes)
qed

lemma Uint64ToBytes_big_endian: "Uint64ToBytes h x = rev (le_bytes x)"
  by (cases h)
    (simp_all add: Uint64ToBytes_def BytesFromUint64_def htobe64_def object_bytes_def
      le_bytes_bswap64)

lemma BytesToUint64_big_endian:
  "length key = 8 \<Longrightarrow> BytesToUint64 h key = Some (le_value (rev key))"
proof (cases h)
  case LittleEndian
  assume len: "length key = 8"
  have "le_bytes (le_value key) = key"
  proof (rule nth_equalityI)
    show "length (le_bytes (le_value key)) = length key"
      using len by (simp add: length_le_bytes)
  next
    fix i assume "i < length (le_bytes (le_value key))"
    then have i: "i < 8" by (simp add: length_le_bytes)
    have "ucast (drop_bit (8 * i) (le_value key)) = key ! i"
    proof (rule bit_word_eqI)
      fix n assume "n < LENGTH(8)"
      then have n: "n < 8" by simp
      have "(8 * i + n) div 8 = i" "(8 * i + n) mod 8 = n" using n by simp_all
      moreover have "8 * i + n < 64" using i n by simp
      ultimately show "bit (ucast (drop_bit (8 * i) (le_value key)) :: byte) n = bit (key ! i) n"
        using n i len by (simp add: bit_simps bit_le_value)
    qed
    then show "le_bytes (le_value key) ! i = key ! i"
      using i by (simp add: le_bytes_def)
  qed
  then have "bswap64 (le_value key) = le_value (rev key)"
    by (simp add: bswap64_eq)
  with len LittleEndian show ?thesis
    by (simp add: BytesToUint64_def object_value_def htobe64_def)
next
  case BigEndian
  assume "length key = 8"
  with BigEndian show ?thesis
    by (simp add: BytesToUint64_def object_value_def htobe64_def)
qed

lemma radix_step:
  fixes a b r p :: nat
  assumes "a < b" and "r < p"
  shows "a * p + r < b * p"
proof -
  have "a * p + r < a * p + p" using assms(2) by simp
  also have "\<dots> = (a + 1) * p" by (simp add: algebra_simps)
  also have "\<dots> \<le> b * p" using assms(1) by (intro mult_le_mono1) simp
  finally show ?thesis .
qed

lemma be_nat_bound: "be_nat bs < 256 ^ length bs"
proof (induction bs)
  case Nil
  then show ?case by simp
next
  case (Cons b bs)
  have "unat b < 256" using unsigned_less [of b, where ?'a = nat] by simp
  from radix_step [OF this Cons] show ?case by simp
qed

lemma be_nat_snoc: "be_nat (bs @ [b]) = be_nat bs * 256 + unat b"
  by (induction bs) (simp_all add: algebra_simps)

lemma bytes_le_be_nat:
  "length xs = length ys \<Longrightarrow> bytes_le xs ys \<longleftrightarrow> be_nat xs \<le> be_nat ys"
proof (induction xs ys rule: list_induct2)
  case Nil
  then show ?case by simp
next
  case (Cons x xs y ys)
  have bnd_x: "be_nat xs < 256 ^ length ys" using be_nat_bound [of xs] Cons.hyps by simp
  have bnd_y: "be_nat ys < 256 ^ length ys" by (rule be_nat_bound)
  consider "x < y" | "y < x" | "x = y" by (metis linorder_less_linear)
  then show ?case
  proof cases
    case 1
    then have "unat x < unat y" by (simp add: word_less_nat_alt)
    from radix_step [OF this bnd_x] 1 show ?thesis using Cons.hyps by simp
  next
    case 2
    then have "unat y < unat x" by (simp add: word_less_nat_alt)
    from radix_step [OF this bnd_y] 2 show ?thesis using Cons.hyps by simp
  next
    case 3
    then show ?thesis using Cons by simp
  qed
qed

lemma be_nat_rev_digits:
  "map unat bs = digits k n \<Longrightarrow> be_nat (rev bs) = n mod 256 ^ k"
proof (induction k arbitrary: bs n)
  case 0
  then show ?case by simp
next
  case (Suc k)
  from Suc.prems obtain b bs' where bs: "bs = b # bs'" and b: "unat b = n mod 256"
    and r: "map unat bs' = digits k (n div 256)" by (cases bs) auto
  have "be_nat (rev bs) = (n div 256) mod 256 ^ k * 256 + n mod 256"
    using Suc.IH [OF r] b by (simp add: bs be_nat_snoc)
  also have "\<dots> = n mod (256 * 256 ^ k)"
    by (simp only: mod_mult2_eq mult.commute)
  finally show ?case by simp
qed

lemma unat_byte_of: "unat (ucast (drop_bit (8 * j) x) :: byte) = unat x div 256 ^ j mod 256"
  for x :: uint64
proof -
  have "unat (drop_bit (8 * j) x) = unat x div 2 ^ (8 * j)"
    by (simp only: unat_drop_bit_eq) (simp only: drop_bit_eq_div)
  moreover have "(2::nat) ^ (8 * j) = 256 ^ j"
    by (simp add: power_mult)
  ultimately show ?thesis
    by (simp add: unsigned_ucast_eq take_bit_eq_mod)
qed

lemma digits_bytes:
  "map (\<lambda>i. unat (ucast (drop_bit (8 * i) x) :: byte)) [j..<j + k] = digits k (unat x div 256 ^ j)"
  for x :: uint64
proof (induction k arbitrary: j)
  case 0
  then show ?case by simp
next
  case (Suc k)
  have "[j..<j + Suc k] = j # [Suc j..<Suc j + k]"
    by (simp add: upt_rec)
  moreover have "unat x div 256 ^ j div 256 = unat x div 256 ^ Suc j"
    by (simp only: power_Suc2 div_mult2_eq)
  ultimately show ?case
    using Suc.IH [of "Suc j"] by (simp only: list.map digits.simps unat_byte_of)
qed

lemma unat_le_bytes: "map unat (le_bytes x) = digits 8 (unat x)"
  using digits_bytes [of x 0 8] by (simp add: le_bytes_def comp_def del: upt_Suc)

lemma be_nat_rev_le_bytes: "be_nat (rev (le_bytes x)) = unat x"
proof -
  have "be_nat (rev (le_bytes x)) = unat x mod 256 ^ 8"
    by (rule be_nat_rev_digits [OF unat_le_bytes])
  moreover have "unat x < 256 ^ 8" using unsigned_less [of x, where ?'a = nat] by simp
  ultimately show ?thesis by simp
qed

text \<open>
  Claim C4. On either host byte order, decoding an encoded key gives the integer back, the
  key is the eight bytes of the integer from the most significant to the least
  significant, and two integers compare as their keys do under the bytewise
  lexicographic order.
\<close>

theorem Uint64ToBytes_roundtrip_big_endian_sortable:
  "BytesToUint64 h (Uint64ToBytes h x) = Some x \<and>
   length (Uint64ToBytes h x) = 8 \<and>
   Uint64ToBytes h x =
     [ucast (drop_bit 56 x), ucast (drop_bit 48 x), ucast (drop_bit 40 x),
      ucast (drop_bit 32 x), ucast (drop_bit 24 x), ucast (drop_bit 16 x),
      ucast (drop_bit 8 x), ucast x] \<and>
   (x \<le> y \<longleftrightarrow> bytes_le (Uint64ToBytes h x) (Uint64ToBytes h y))"
proof -
  have len: "length (Uint64ToBytes h x) = 8"
    by (simp add: Uint64ToBytes_big_endian length_le_bytes)
  have "BytesToUint64 h (Uint64ToBytes h x) = Some (le_value (rev (Uint64ToBytes h x)))"
    by (rule BytesToUint64_big_endian [OF len])
  then have rt: "BytesToUint64 h (Uint64ToBytes h x) = Some x"
    by (simp add: Uint64ToBytes_big_endian le_value_le_bytes)
  have be: "Uint64ToBytes h x =
     [ucast (drop_bit 56 x), ucast (drop_bit 48 x), ucast (drop_bit 40 x),
      ucast (drop_bit 32 x), ucast (drop_bit 24 x), ucast (drop_bit 16 x),
      ucast (drop_bit 8 x), ucast x]"
    by (simp add: Uint64ToBytes_big_endian le_bytes_eq)
  have "bytes_le (Uint64ToBytes h x) (Uint64ToBytes h y) \<longleftrightarrow>
      be_nat (Uint64ToBytes h x) \<le> be_nat (Uint64ToBytes h y)"
    by (rule bytes_le_be_nat) (simp add: Uint64ToBytes_big_endian length_le_bytes)
  also have "\<dots> \<longleftrightarrow> unat x \<le> unat y"
    by (simp add: Uint64ToBytes_big_endian be_nat_rev_le_bytes)
  also have "\<dots> \<longleftrightarrow> x \<le> y"
    by (simp add: word_le_nat_alt)
  finally have ord: "x \<le> y \<longleftrightarrow> bytes_le (Uint64ToBytes h x) (Uint64ToBytes h y)"
    by simp
  from rt len be ord show ?thesis by blast
qed

section \<open>Properties of the fingerprint\<close>

lemma hex_char_props:
  assumes "d < 16"
  shows "hex_value (hex_char d) = Some d"
    and "\<not> ascii_isspace (hex_char d)"
    and "hex_char d \<noteq> CHR ''-''" and "hex_char d \<noteq> CHR ''+''"
    and "hex_char d \<noteq> CHR ''x''" and "hex_char d \<noteq> CHR ''X''"
proof -
  from assms have d: "d \<in> {0, 1, 2, 3, 4, 5, 6, 7, 8, 9, 10, 11, 12, 13, 14, 15}"
    by (simp only: insert_iff empty_iff) arith
  from d show "hex_value (hex_char d) = Some d"
    by (auto simp add: hex_char_def hex_value_def)
  from d show "\<not> ascii_isspace (hex_char d)"
    by (auto simp add: hex_char_def ascii_isspace_def)
  from d show "hex_char d \<noteq> CHR ''-''" "hex_char d \<noteq> CHR ''+''"
    "hex_char d \<noteq> CHR ''x''" "hex_char d \<noteq> CHR ''X''"
    by (auto simp add: hex_char_def)
qed

lemma byte_nibbles: "unat b div 16 < 16" "unat b mod 16 < 16" for b :: byte
proof -
  have "unat b < 256" using unsigned_less [of b, where ?'a = nat] by simp
  then show "unat b div 16 < 16" by simp
  show "unat b mod 16 < 16" by simp
qed

lemma BytesToHexString_Cons:
  "BytesToHexString (b # bs) =
     hex_char (unat b div 16) # hex_char (unat b mod 16) # BytesToHexString bs"
  by (simp add: BytesToHexString_def)

lemma BytesToHexString_Nil: "BytesToHexString [] = []"
  by (simp add: BytesToHexString_def)

lemma take_BytesToHexString:
  "take (2 * k) (BytesToHexString bs) = BytesToHexString (take k bs)"
proof (induction bs arbitrary: k)
  case Nil
  then show ?case by (simp add: BytesToHexString_Nil)
next
  case (Cons b bs)
  show ?case
  proof (cases k)
    case 0
    then show ?thesis by (simp add: BytesToHexString_Nil)
  next
    case (Suc j)
    then show ?thesis using Cons.IH [of j] by (simp add: BytesToHexString_Cons)
  qed
qed

lemma parse_step:
  assumes "d < 16" and "v * 16 + d < 2 ^ 64"
  shows "safe_parse_positive_int (hex_char d # cs) v = safe_parse_positive_int cs (v * 16 + d)"
proof -
  have "v \<le> uint64_max div 16" using assms by (simp add: uint64_max_def)
  moreover have "v * 16 \<le> uint64_max - d" using assms by (simp add: uint64_max_def)
  ultimately show ?thesis
    using hex_char_props(1) [OF assms(1)] by simp
qed

lemma parse_BytesToHexString:
  "v * 256 ^ length bs + be_nat bs < 2 ^ 64 \<Longrightarrow>
   safe_parse_positive_int (BytesToHexString bs) v = Some (v * 256 ^ length bs + be_nat bs)"
proof (induction bs arbitrary: v)
  case Nil
  then show ?case by (simp add: BytesToHexString_Nil)
next
  case (Cons b bs)
  define hi lo where "hi = unat b div 16" and "lo = unat b mod 16"
  have hi: "hi < 16" and lo: "lo < 16" by (simp_all add: hi_def lo_def byte_nibbles)
  have b: "unat b = hi * 16 + lo" by (simp add: hi_def lo_def)
  define w where "w = v * 256 + unat b"
  have w: "w = (v * 16 + hi) * 16 + lo" by (simp add: w_def b)
  have eq: "v * 256 ^ length (b # bs) + be_nat (b # bs) = w * 256 ^ length bs + be_nat bs"
    by (simp add: w_def algebra_simps)
  from Cons.prems have rest: "w * 256 ^ length bs + be_nat bs < 2 ^ 64"
    by (simp only: eq)
  have "w \<le> w * 256 ^ length bs" by simp
  with rest have wb: "w < 2 ^ 64" by linarith
  then have vb: "v * 16 + hi < 2 ^ 64" using w by simp
  have "safe_parse_positive_int (BytesToHexString (b # bs)) v =
      safe_parse_positive_int (BytesToHexString bs) w"
    using parse_step [OF hi vb] parse_step [OF lo] wb w
    by (simp add: BytesToHexString_Cons hi_def lo_def)
  also have "\<dots> = Some (w * 256 ^ length bs + be_nat bs)"
    using rest by (rule Cons.IH)
  finally show ?case by (simp only: eq)
qed

lemma dropWhile_none: "(\<And>c. c \<in> set s \<Longrightarrow> \<not> P c) \<Longrightarrow> dropWhile P s = s"
  by (cases s) simp_all

lemma hex_no_space: "c \<in> set (BytesToHexString bs) \<Longrightarrow> \<not> ascii_isspace c"
  by (induction bs)
    (auto simp add: BytesToHexString_Nil BytesToHexString_Cons hex_char_props(2) byte_nibbles)

lemma SimpleHexAtoi_BytesToHexString:
  assumes "bs \<noteq> []" and "length bs \<le> 8"
  shows "SimpleHexAtoi (BytesToHexString bs) = Some (of_nat (be_nat bs))"
proof -
  from assms(1) obtain b bs' where bs: "bs = b # bs'" by (cases bs) auto
  define s where "s = BytesToHexString bs"
  have s: "s = hex_char (unat b div 16) # hex_char (unat b mod 16) # BytesToHexString bs'"
    by (simp add: s_def bs BytesToHexString_Cons)
  have nospace: "\<not> ascii_isspace c" if "c \<in> set s" for c
    using that by (simp only: s_def hex_no_space not_False_eq_True)
  have "dropWhile ascii_isspace s = s"
    by (rule dropWhile_none) (rule nospace)
  moreover have "dropWhile ascii_isspace (rev s) = rev s"
    by (rule dropWhile_none) (simp add: nospace)
  ultimately have strip: "rev (dropWhile ascii_isspace (rev (dropWhile ascii_isspace s))) = s"
    by simp
  have sign: "strip_sign s = Some s"
    by (simp add: s strip_sign_def hex_char_props(3,4) byte_nibbles)
  have prefix: "strip_hex_prefix s = Some s"
    by (simp add: s strip_hex_prefix_def hex_char_props(5,6) byte_nibbles)
  have "be_nat bs < 256 ^ length bs" by (rule be_nat_bound)
  also have "(256::nat) ^ length bs \<le> 256 ^ 8"
    using assms(2) by (intro power_increasing) simp_all
  finally have "0 * 256 ^ length bs + be_nat bs < 2 ^ 64" by simp
  from parse_BytesToHexString [OF this]
  have "safe_parse_positive_int s 0 = Some (be_nat bs)" by (simp add: s_def)
  with strip sign prefix show ?thesis
    unfolding s_def [symmetric] by (simp add: SimpleHexAtoi_def)
qed

lemma sint_zero_iff: "sint v = 0 \<longleftrightarrow> v = 0"
  by (metis signed_eq_0_iff)

lemma spec_fingerprint_input_eq: "spec_fingerprint_input metadata = fingerprint_input metadata"
  by (simp add: spec_fingerprint_input_def fingerprint_input_def spec_field_text_def
      OmitDefault_def sint_zero_iff)

lemma fingerprint_of_input_digest:
  assumes "EVP_Digest_sha256 input = Some md" and "8 \<le> length md"
  shows "fingerprint_of_input EVP_Digest_sha256 input = Inr (spec_fingerprint_of_digest md)"
proof -
  define digest where "digest = md @ drop (length md) (replicate EVP_MAX_MD_SIZE (0 :: byte))"
  have t8: "take 8 digest = take 8 md"
    using assms(2) by (simp add: digest_def)
  have "take 16 (BytesToHexString digest) = BytesToHexString (take 8 digest)"
    using take_BytesToHexString [of 8 digest] by simp
  moreover have "SimpleHexAtoi (BytesToHexString (take 8 md)) = Some (of_nat (be_nat (take 8 md)))"
    using assms(2) by (intro SimpleHexAtoi_BytesToHexString) auto
  ultimately have "SimpleHexAtoi (take 16 (BytesToHexString digest)) =
      Some (spec_fingerprint_of_digest md)"
    by (simp add: t8 spec_fingerprint_of_digest_def)
  then show ?thesis
    using assms(1) by (simp add: fingerprint_of_input_def digest_def)
qed

text \<open>
  Claim C2. When the hash succeeds with a digest of 32 bytes (the size of SHA-256) on the
  concatenation of country, city, service type and the decimal renderings of seconds and
  nanos, a zero or empty field contributing nothing, the function returns the first eight
  bytes of the digest read as a big-endian number.
\<close>

theorem FingerprintPublicMetadata_first_eight_bytes:
  assumes "EVP_Digest_sha256 (spec_fingerprint_input metadata) = Some md"
    and "length md = 32"
  shows "FingerprintPublicMetadata EVP_Digest_sha256 metadata =
           Inr (spec_fingerprint_of_digest md)"
  using assms
  by (simp add: FingerprintPublicMetadata_def spec_fingerprint_input_eq
      fingerprint_of_input_digest)

theorem FingerprintPublicMetadata_first_eight_bytes_witness:
  "first_32_bytes_digest (spec_fingerprint_input scenario_metadata_explicit) =
     Some (map of_char ''USus_ca_san_diegoservice_type900'') \<and>
   length (map of_char ''USus_ca_san_diegoservice_type900'' :: byte list) = 32 \<and>
   FingerprintPublicMetadata first_32_bytes_digest scenario_metadata_explicit =
     Inr 0x555375735F63615F"
proof -
  have input: "spec_fingerprint_input scenario_metadata_explicit = ''USus_ca_san_diegoservice_type900''"
    by (simp add: spec_fingerprint_input_def scenario_metadata_explicit_def get_country_def
        get_city_geo_id_def get_service_type_def get_seconds_def get_nanos_def
        string_or_default_def int_or_default_def spec_field_text_def StrCat_int_def
        digit_char_def)
  have digest: "first_32_bytes_digest (spec_fingerprint_input scenario_metadata_explicit) =
      Some (map of_char ''USus_ca_san_diegoservice_type900'')"
    by (simp add: input first_32_bytes_digest_def)
  have len: "length (map of_char ''USus_ca_san_diegoservice_type900'' :: byte list) = 32"
    by simp
  have "spec_fingerprint_of_digest (map of_char ''USus_ca_san_diegoservice_type900'') =
      0x555375735F63615F"
    by (simp add: spec_fingerprint_of_digest_def)
  with FingerprintPublicMetadata_first_eight_bytes
    [of first_32_bytes_digest scenario_metadata_explicit, OF digest len] digest len
  show ?thesis by simp
qed

lemmas accessor_defs = get_country_def get_city_geo_id_def get_service_type_def get_seconds_def
  get_nanos_def string_or_default_def int_or_default_def

lemma fingerprint_input_debug_mode:
  "fingerprint_input (metadata\<lparr>debug_mode := v\<rparr>) = fingerprint_input metadata"
  by (simp add: fingerprint_input_def accessor_defs)

lemma fingerprint_input_more:
  "fingerprint_input (metadata\<lparr>PublicMetadata.more := z\<rparr>) = fingerprint_input metadata"
  by (simp add: fingerprint_input_def accessor_defs)

lemma fingerprint_input_nanos:
  "fingerprint_input (metadata\<lparr>expiration := Some (t\<lparr>nanos := Some 0\<rparr>)\<rparr>) =
   fingerprint_input (metadata\<lparr>expiration := Some (t\<lparr>nanos := None\<rparr>)\<rparr>)"
  by (simp add: fingerprint_input_def accessor_defs)

lemma fingerprint_input_seconds:
  "fingerprint_input (metadata\<lparr>expiration := Some (t\<lparr>seconds := Some 0\<rparr>)\<rparr>) =
   fingerprint_input (metadata\<lparr>expiration := Some (t\<lparr>seconds := None\<rparr>)\<rparr>)"
  by (simp add: fingerprint_input_def accessor_defs)

lemma fingerprint_input_expiration:
  "fingerprint_input (metadata\<lparr>expiration := Some \<lparr>seconds = None, nanos = None\<rparr>\<rparr>) =
   fingerprint_input (metadata\<lparr>expiration := None\<rparr>)"
  by (simp add: fingerprint_input_def accessor_defs)

lemma fingerprint_input_service_type:
  "fingerprint_input (metadata\<lparr>service_type := Some []\<rparr>) =
   fingerprint_input (metadata\<lparr>service_type := None\<rparr>)"
  by (simp add: fingerprint_input_def accessor_defs)

lemma fingerprint_input_country:
  "fingerprint_input (metadata\<lparr>exit_location := Some (l\<lparr>country := Some []\<rparr>)\<rparr>) =
   fingerprint_input (metadata\<lparr>exit_location := Some (l\<lparr>country := None\<rparr>)\<rparr>)"
  by (simp add: fingerprint_input_def accessor_defs)

lemma fingerprint_input_city_geo_id:
  "fingerprint_input (metadata\<lparr>exit_location := Some (l\<lparr>city_geo_id := Some []\<rparr>)\<rparr>) =
   fingerprint_input (metadata\<lparr>exit_location := Some (l\<lparr>city_geo_id := None\<rparr>)\<rparr>)"
  by (simp add: fingerprint_input_def accessor_defs)

lemma fingerprint_input_exit_location:
  "fingerprint_input (metadata\<lparr>exit_location := Some \<lparr>country = None, city_geo_id = None\<rparr>\<rparr>) =
   fingerprint_input (metadata\<lparr>exit_location := None\<rparr>)"
  by (simp add: fingerprint_input_def accessor_defs)

text \<open>
  Claim C3. The fingerprint is a function of the message (equal messages have equal
  fingerprints), and a field set to its default value gives the fingerprint of the
  message without the field: \<open>debug_mode\<close>, \<open>nanos\<close>, \<open>seconds\<close>, the strings and the two
  sub-messages. A field added to the message does not change it either: neither one that
  the function does not read, nor one appended to the concatenation with its default value.
\<close>

theorem FingerprintPublicMetadata_defaults_omitted:
  "(metadata = metadata' \<longrightarrow>
      FingerprintPublicMetadata h metadata = FingerprintPublicMetadata h metadata') \<and>
   FingerprintPublicMetadata h (metadata\<lparr>debug_mode := Some 0\<rparr>) =
     FingerprintPublicMetadata h (metadata\<lparr>debug_mode := None\<rparr>) \<and>
   FingerprintPublicMetadata h (metadata\<lparr>expiration := Some (t\<lparr>nanos := Some 0\<rparr>)\<rparr>) =
     FingerprintPublicMetadata h (metadata\<lparr>expiration := Some (t\<lparr>nanos := None\<rparr>)\<rparr>) \<and>
   FingerprintPublicMetadata h (metadata\<lparr>expiration := Some (t\<lparr>seconds := Some 0\<rparr>)\<rparr>) =
     FingerprintPublicMetadata h (metadata\<lparr>expiration := Some (t\<lparr>seconds := None\<rparr>)\<rparr>) \<and>
   FingerprintPublicMetadata h (metadata\<lparr>expiration := Some \<lparr>seconds = None, nanos = None\<rparr>\<rparr>) =
     FingerprintPublicMetadata h (metadata\<lparr>expiration := None\<rparr>) \<and>
   FingerprintPublicMetadata h (metadata\<lparr>service_type := Some []\<rparr>) =
     FingerprintPublicMetadata h (metadata\<lparr>service_type := None\<rparr>) \<and>
   FingerprintPublicMetadata h (metadata\<lparr>exit_location := Some (l\<lparr>country := Some []\<rparr>)\<rparr>) =
     FingerprintPublicMetadata h (metadata\<lparr>exit_location := Some (l\<lparr>country := None\<rparr>)\<rparr>) \<and>
   FingerprintPublicMetadata h (metadata\<lparr>exit_location := Some (l\<lparr>city_geo_id := Some []\<rparr>)\<rparr>) =
     FingerprintPublicMetadata h (metadata\<lparr>exit_location := Some (l\<lparr>city_geo_id := None\<rparr>)\<rparr>) \<and>
   FingerprintPublicMetadata h
       (metadata\<lparr>exit_location := Some \<lparr>country = None, city_geo_id = None\<rparr>\<rparr>) =
     FingerprintPublicMetadata h (metadata\<lparr>exit_location := None\<rparr>) \<and>
   FingerprintPublicMetadata h (metadata\<lparr>PublicMetadata.more := z\<rparr>) =
     FingerprintPublicMetadata h metadata \<and>
   fingerprint_of_input h (fingerprint_input metadata @ OmitDefault (0 :: 'b::len word)) =
     FingerprintPublicMetadata h metadata \<and>
   fingerprint_of_input h (fingerprint_input metadata @ string_or_default None) =
     FingerprintPublicMetadata h metadata"
  unfolding FingerprintPublicMetadata_def
  by (simp only: fingerprint_input_debug_mode fingerprint_input_more fingerprint_input_nanos
      fingerprint_input_seconds fingerprint_input_expiration fingerprint_input_service_type
      fingerprint_input_country fingerprint_input_city_geo_id fingerprint_input_exit_location)
    (simp add: OmitDefault_def string_or_default_def)

theorem FingerprintPublicMetadata_defaults_omitted_witness:
  "\<forall>h. FingerprintPublicMetadata h scenario_metadata_explicit =
        FingerprintPublicMetadata h scenario_metadata_omitted"
proof
  fix h :: "string \<Rightarrow> byte list option"
  define t :: Timestamp where "t = \<lparr>seconds = Some 900, nanos = None\<rparr>"
  have e: "scenario_metadata_explicit =
      (scenario_metadata_omitted\<lparr>expiration := Some (t\<lparr>nanos := Some 0\<rparr>)\<rparr>)\<lparr>debug_mode := Some 0\<rparr>"
    by (simp add: scenario_metadata_explicit_def scenario_metadata_omitted_def t_def)
  have o: "scenario_metadata_omitted =
      (scenario_metadata_omitted\<lparr>expiration := Some (t\<lparr>nanos := None\<rparr>)\<rparr>)\<lparr>debug_mode := None\<rparr>"
    by (simp add: scenario_metadata_omitted_def t_def)
  have same: "scenario_metadata_omitted = scenario_metadata_omitted" by simp
  have "FingerprintPublicMetadata h scenario_metadata_explicit =
      FingerprintPublicMetadata h
        ((scenario_metadata_omitted\<lparr>expiration := Some (t\<lparr>nanos := Some 0\<rparr>)\<rparr>)\<lparr>debug_mode := None\<rparr>)"
    using FingerprintPublicMetadata_defaults_omitted
      [of "scenario_metadata_omitted\<lparr>expiration := Some (t\<lparr>nanos := Some 0\<rparr>)\<rparr>"
          "scenario_metadata_omitted\<lparr>expiration := Some (t\<lparr>nanos := Some 0\<rparr>)\<rparr>" h t
          "\<lparr>country = None, city_geo_id = None\<rparr>" "()", where ?'b = 32]
    by (simp only: e)
  also have "\<dots> = FingerprintPublicMetadata h
        ((scenario_metadata_omitted\<lparr>debug_mode := None\<rparr>)\<lparr>expiration := Some (t\<lparr>nanos := Some 0\<rparr>)\<rparr>)"
    by (simp add: scenario_metadata_omitted_def)
  also have "\<dots> = FingerprintPublicMetadata h
        ((scenario_metadata_omitted\<lparr>debug_mode := None\<rparr>)\<lparr>expiration := Some (t\<lparr>nanos := None\<rparr>)\<rparr>)"
    using FingerprintPublicMetadata_defaults_omitted
      [of "scenario_metadata_omitted\<lparr>debug_mode := None\<rparr>"
          "scenario_metadata_omitted\<lparr>debug_mode := None\<rparr>" h t
          "\<lparr>country = None, city_geo_id = None\<rparr>" "()", where ?'b = 32]
    by blast
  also have "\<dots> = FingerprintPublicMetadata h scenario_metadata_omitted"
    by (simp add: scenario_metadata_omitted_def t_def)
  finally show "FingerprintPublicMetadata h scenario_metadata_explicit =
        FingerprintPublicMetadata h scenario_metadata_omitted" .
qed

text \<open>
  Claim C10. The concatenation has no separators: the message with country "USA" and an
  empty city and the message with country "US" and city "A" are different messages with
  the same hash input, hence the same fingerprint under every hash.
\<close>

theorem fingerprint_input_not_injective:
  "metadata_USA \<noteq> metadata_US_A \<and>
   fingerprint_input metadata_USA = fingerprint_input metadata_US_A \<and>
   (\<forall>h. FingerprintPublicMetadata h metadata_USA = FingerprintPublicMetadata h metadata_US_A)"
  by (simp add: FingerprintPublicMetadata_def fingerprint_input_def accessor_defs
      metadata_USA_def metadata_US_A_def OmitDefault_def)
section \<open>Properties of the packet pool\<close>

lemma foldl_snoc_Nil: "foldl (\<lambda>av packet. av @ [packet]) acc xs = acc @ xs"
  by (induction xs arbitrary: acc) simp_all

lemma available_new: "available IpSecPacketPool_new = [0..<kPacketPoolSize]"
  by (simp add: IpSecPacketPool_new_def Let_def foldl_snoc_Nil)

lemma pool_inv_new: "pool_inv IpSecPacketPool_new"
  by (simp add: pool_inv_def available_new) (simp add: IpSecPacketPool_new_def Let_def)

lemma pool_inv_take_back:
  assumes "pool_inv s" and "available s \<noteq> []"
  shows "pool_inv (snd (take_back s))"
    and "fst (take_back s) < kPacketPoolSize"
    and "fst (take_back s) = last (available s)"
    and "use_count (snd (take_back s)) (fst (take_back s)) = 1"
    and "fst (take_back s) \<notin> set (available (snd (take_back s)))"
proof -
  define p where "p = last (available s)"
  have av: "available s = butlast (available s) @ [p]"
    using assms(2) by (simp add: p_def)
  have d: "distinct (butlast (available s) @ [p])"
    using assms(1) av by (metis pool_inv_def)
  then have pn: "p \<notin> set (butlast (available s))" by simp
  have mem: "q \<in> set (available s) \<longleftrightarrow> q = p \<or> q \<in> set (butlast (available s))" for q
    by (subst av) auto
  have pin: "p \<in> set (available s)" using mem by simp
  with assms(1) have p: "p < kPacketPoolSize" "use_count s p = 0"
    by (simp_all add: pool_inv_def)
  show "fst (take_back s) < kPacketPoolSize" using p by (simp add: take_back_def Let_def p_def)
  show "fst (take_back s) = last (available s)" by (simp add: take_back_def Let_def)
  show "use_count (snd (take_back s)) (fst (take_back s)) = 1"
    by (simp add: take_back_def Let_def)
  show "fst (take_back s) \<notin> set (available (snd (take_back s)))"
    using pn by (simp add: take_back_def Let_def p_def)
  show "pool_inv (snd (take_back s))"
    unfolding pool_inv_def
  proof (intro conjI allI)
    show "pool (snd (take_back s)) = [0..<kPacketPoolSize]"
      using assms(1) by (simp add: take_back_def Let_def pool_inv_def)
    show "distinct (available (snd (take_back s)))"
      using d by (simp add: take_back_def Let_def)
    fix q
    show "q \<in> set (available (snd (take_back s))) \<longleftrightarrow>
        q < kPacketPoolSize \<and> use_count (snd (take_back s)) q = 0"
    proof (cases "q = p")
      case True
      then show ?thesis using pn by (simp add: take_back_def Let_def p_def)
    next
      case False
      then have "q \<in> set (butlast (available s)) \<longleftrightarrow> q \<in> set (available s)"
        using mem by simp
      with False assms(1) show ?thesis
        by (simp add: take_back_def Let_def p_def [symmetric] pool_inv_def)
    qed
    show "use_count (snd (take_back s)) q = 0 \<or> q < kPacketPoolSize"
      using assms(1) p by (simp add: take_back_def Let_def p_def [symmetric] pool_inv_def)
  qed
qed

lemma pool_inv_on_loan:
  assumes "pool_inv s" and "use_count s packet \<noteq> 0"
  shows "packet < kPacketPoolSize" and "packet \<notin> set (available s)"
proof -
  from assms(1) have "use_count s packet = 0 \<or> packet < kPacketPoolSize"
    unfolding pool_inv_def by blast
  with assms(2) show "packet < kPacketPoolSize" by simp
  from assms(1) have "packet \<in> set (available s) \<longleftrightarrow>
      packet < kPacketPoolSize \<and> use_count s packet = 0"
    unfolding pool_inv_def by blast
  with assms(2) show "packet \<notin> set (available s)" by simp
qed

lemma pool_inv_copy_handle:
  assumes "pool_inv s"
  shows "pool_inv (copy_handle packet s)"
proof (cases "use_count s packet = 0")
  case True
  then show ?thesis using assms by (simp add: copy_handle_def)
next
  case False
  note loan = pool_inv_on_loan [OF assms False]
  show ?thesis
    using assms loan False unfolding pool_inv_def copy_handle_def by auto
qed

lemma pool_inv_release_handle:
  assumes "pool_inv s"
  shows "pool_inv (release_handle packet s)"
proof (cases "use_count s packet = 0")
  case True
  then show ?thesis using assms by (simp add: release_handle_def)
next
  case False
  note loan = pool_inv_on_loan [OF assms False]
  show ?thesis
  proof (cases "use_count s packet = 1")
    case True
    then show ?thesis
      using assms loan unfolding pool_inv_def release_handle_def Return_def by auto
  next
    case False
    with \<open>use_count s packet \<noteq> 0\<close> show ?thesis
      using assms loan unfolding pool_inv_def release_handle_def by auto
  qed
qed

lemma pool_inv_other_thread: "pool_inv s \<Longrightarrow> pool_inv (other_thread s op)"
  by (cases op) (simp_all add: pool_inv_copy_handle pool_inv_release_handle pool_inv_take_back(1))

lemma pool_inv_other_threads: "pool_inv s \<Longrightarrow> pool_inv (foldl other_thread s ops)"
  by (induction ops arbitrary: s) (simp_all add: pool_inv_other_thread)

lemma pool_inv_Borrow_wait: "pool_inv s \<Longrightarrow> pool_inv (snd (Borrow_wait deadline rounds s))"
proof (induction rounds arbitrary: s)
  case Nil
  then show ?case by (simp add: pool_inv_take_back(1))
next
  case (Cons r rounds)
  obtain ops woken_at where r: "r = (ops, woken_at)" by (cases r)
  show ?case
    using Cons.prems Cons.IH [of "foldl other_thread s ops"]
    by (simp add: r Let_def pool_inv_take_back(1) pool_inv_other_threads)
qed

lemma pool_inv_step: "pool_inv s \<Longrightarrow> pool_inv (pool_step s call)"
  by (cases call) (simp_all add: Borrow_def Let_def pool_inv_Borrow_wait pool_inv_other_thread)

lemma pool_inv_foldl: "pool_inv s \<Longrightarrow> pool_inv (foldl pool_step s calls)"
  by (induction calls arbitrary: s) (simp_all add: pool_inv_step)

lemma pool_inv_run: "pool_inv (pool_run calls)"
  by (simp add: pool_run_def pool_inv_foldl pool_inv_new)

lemma Borrow_wait_result:
  assumes "pool_inv s"
  shows "case Borrow_wait deadline rounds s of
           (Packet packet, s') \<Rightarrow>
              packet < kPacketPoolSize \<and> use_count s' packet = 1 \<and>
              packet \<notin> set (available s')
         | (Null, s') \<Rightarrow> available s = [] \<and> (\<exists>r \<in> set rounds. deadline \<le> snd r)
         | (Blocked, s') \<Rightarrow> available s = [] \<and> list_all (\<lambda>r. snd r < deadline) rounds"
  using assms
proof (induction rounds arbitrary: s)
  case Nil
  then show ?case
    by (cases "available s = []") (simp_all add: pool_inv_take_back(2,4,5))
next
  case (Cons r rounds)
  obtain ops woken_at where r: "r = (ops, woken_at)" by (cases r)
  show ?case
  proof (cases "available s = []")
    case False
    with Cons.prems show ?thesis by (simp add: r pool_inv_take_back(2,4,5))
  next
    case True
    define s1 where "s1 = foldl other_thread s ops"
    have inv1: "pool_inv s1" using Cons.prems by (simp add: s1_def pool_inv_other_threads)
    show ?thesis
    proof (cases "deadline \<le> woken_at")
      case True
      with \<open>available s = []\<close> show ?thesis by (simp add: r Let_def)
    next
      case False
      then have step: "Borrow_wait deadline (r # rounds) s = Borrow_wait deadline rounds s1"
        using True by (simp add: r s1_def Let_def)
      from Cons.IH [OF inv1] True False show ?thesis
        unfolding step by (auto simp add: r split: prod.splits borrow_result.splits)
    qed
  qed
qed

lemma Borrow_wait_pool: "pool_inv s \<Longrightarrow> pool (snd (Borrow_wait deadline rounds s)) = pool s"
  using pool_inv_Borrow_wait [where s = s and deadline = deadline and rounds = rounds]
  by (simp add: pool_inv_def)

lemma Borrow_wait_available:
  "available s \<noteq> [] \<Longrightarrow> fst (Borrow_wait deadline rounds s) = Packet (last (available s))"
  by (cases rounds) (auto simp add: take_back_def Let_def)

lemma Borrow_wait_deadline:
  "pool_inv s \<Longrightarrow> \<exists>r \<in> set rounds. deadline \<le> snd r \<Longrightarrow>
     fst (Borrow_wait deadline rounds s) \<noteq> Blocked"
  using Borrow_wait_result [where s = s and deadline = deadline and rounds = rounds]
  by (auto simp add: list_all_iff split: prod.splits borrow_result.splits)

lemma release_last_handle:
  "use_count s packet = 1 \<Longrightarrow>
     available (release_handle packet s) = available s @ [packet] \<and>
     use_count (release_handle packet s) packet = 0 \<and>
     pool (release_handle packet s) = pool s"
  by (simp add: release_handle_def Return_def)

lemma release_other_handle:
  "1 < use_count s packet \<Longrightarrow>
     available (release_handle packet s) = available s \<and>
     use_count (release_handle packet s) packet = use_count s packet - 1"
  by (simp add: release_handle_def)

lemma pool_run_snoc: "pool_run (calls @ [c]) = pool_step (pool_run calls) c"
  by (simp add: pool_run_def)

lemma butlast_upt_0: "butlast [0..<n] = [0..<n - 1]"
  by (cases n) simp_all

lemma pool_drained:
  "k \<le> kPacketPoolSize \<Longrightarrow>
     available (pool_run (replicate k (CallBorrow now []))) = [0..<kPacketPoolSize - k] \<and>
     use_count (pool_run (replicate k (CallBorrow now []))) =
       (\<lambda>packet. if kPacketPoolSize - k \<le> packet \<and> packet < kPacketPoolSize then 1 else 0)"
proof (induction k)
  case 0
  then show ?case
    by (simp add: pool_run_def available_new) (auto simp add: IpSecPacketPool_new_def Let_def)
next
  case (Suc k)
  define s where "s = pool_run (replicate k (CallBorrow now []))"
  have "replicate (Suc k) (CallBorrow now []) = replicate k (CallBorrow now []) @ [CallBorrow now []]"
    by (simp add: replicate_append_same)
  then have step: "pool_run (replicate (Suc k) (CallBorrow now [])) = pool_step s (CallBorrow now [])"
    by (simp only: pool_run_snoc s_def)
  have av: "available s = [0..<kPacketPoolSize - k]"
    and uc: "use_count s =
       (\<lambda>packet. if kPacketPoolSize - k \<le> packet \<and> packet < kPacketPoolSize then 1 else 0)"
    using Suc by (simp_all add: s_def)
  have pos: "kPacketPoolSize - k \<noteq> 0" using Suc.prems by simp
  then have l: "last [0..<kPacketPoolSize - k] = kPacketPoolSize - Suc k" by simp
  have "available (pool_step s (CallBorrow now [])) = [0..<kPacketPoolSize - Suc k]"
    using pos by (simp add: Borrow_def take_back_def Let_def av butlast_upt_0)
  moreover have "use_count (pool_step s (CallBorrow now [])) =
       (\<lambda>packet. if kPacketPoolSize - Suc k \<le> packet \<and> packet < kPacketPoolSize then 1 else 0)"
    using pos Suc.prems by (auto simp add: Borrow_def take_back_def Let_def av uc l fun_eq_iff)
  ultimately show ?case by (simp only: step)
qed

text \<open>
  Claim C9. After any sequence of calls on a new pool, the vector holds 400 packets and is
  the one the constructor made, whatever \<open>Borrow\<close> does (no packet is ever allocated). A
  call of \<open>Borrow\<close> returns a packet of the vector, now on loan with one handle, or the
  null handle, and then no packet was available and a wait ended at or after the deadline
  of 50 ms; it is still waiting only while no wait has reached the deadline, and it takes
  a packet at once when one is available. Destroying the last handle of a packet puts the
  packet back among the available ones; destroying a copy does not.
\<close>

theorem IpSecPacketPool_Borrow_fixed_pool:
  assumes "s = pool_run calls"
  shows "kPacketPoolSize = 400 \<and> kBorrowWaitTimeout = 50 \<and>
     length (pool s) = kPacketPoolSize \<and> pool s = pool IpSecPacketPool_new \<and>
     distinct (available s) \<and> set (available s) \<subseteq> set (pool s) \<and>
     pool (snd (Borrow now rounds s)) = pool s \<and>
     (case Borrow now rounds s of
        (Packet packet, s') \<Rightarrow>
           packet \<in> set (pool s) \<and> use_count s' packet = 1 \<and> packet \<notin> set (available s')
      | (Null, s') \<Rightarrow>
           available s = [] \<and> (\<exists>r \<in> set rounds. now + kBorrowWaitTimeout \<le> snd r)
      | (Blocked, s') \<Rightarrow>
           available s = [] \<and> list_all (\<lambda>r. snd r < now + kBorrowWaitTimeout) rounds) \<and>
     (available s \<noteq> [] \<longrightarrow> fst (Borrow now rounds s) = Packet (last (available s))) \<and>
     ((\<exists>r \<in> set rounds. now + kBorrowWaitTimeout \<le> snd r) \<longrightarrow>
        fst (Borrow now rounds s) \<noteq> Blocked) \<and>
     (use_count s packet = 1 \<longrightarrow>
        available (release_handle packet s) = available s @ [packet] \<and>
        use_count (release_handle packet s) packet = 0 \<and>
        pool (release_handle packet s) = pool s) \<and>
     (1 < use_count s packet \<longrightarrow> available (release_handle packet s) = available s)"
proof -
  have inv: "pool_inv s" using assms by (simp add: pool_inv_run)
  then have p: "pool s = [0..<kPacketPoolSize]" by (simp add: pool_inv_def)
  have c1: "kPacketPoolSize = 400 \<and> kBorrowWaitTimeout = 50"
    by (simp add: kPacketPoolSize_def kBorrowWaitTimeout_def)
  have c2: "length (pool s) = kPacketPoolSize \<and> pool s = pool IpSecPacketPool_new"
    by (simp add: p IpSecPacketPool_new_def Let_def)
  have c3: "distinct (available s) \<and> set (available s) \<subseteq> set (pool s)"
    using inv by (auto simp add: pool_inv_def)
  have c4: "pool (snd (Borrow now rounds s)) = pool s"
    using inv by (simp add: Borrow_def Let_def Borrow_wait_pool)
  have c5: "case Borrow now rounds s of
        (Packet packet, s') \<Rightarrow>
           packet \<in> set (pool s) \<and> use_count s' packet = 1 \<and> packet \<notin> set (available s')
      | (Null, s') \<Rightarrow>
           available s = [] \<and> (\<exists>r \<in> set rounds. now + kBorrowWaitTimeout \<le> snd r)
      | (Blocked, s') \<Rightarrow>
           available s = [] \<and> list_all (\<lambda>r. snd r < now + kBorrowWaitTimeout) rounds"
    using Borrow_wait_result [OF inv, where deadline = "now + kBorrowWaitTimeout" and rounds = rounds]
    by (simp add: Borrow_def Let_def p split: prod.splits borrow_result.splits)
  have c6: "available s \<noteq> [] \<longrightarrow> fst (Borrow now rounds s) = Packet (last (available s))"
    by (simp add: Borrow_def Let_def Borrow_wait_available)
  have c7: "(\<exists>r \<in> set rounds. now + kBorrowWaitTimeout \<le> snd r) \<longrightarrow>
        fst (Borrow now rounds s) \<noteq> Blocked"
    using Borrow_wait_deadline [OF inv, where deadline = "now + kBorrowWaitTimeout" and rounds = rounds]
    by (simp add: Borrow_def Let_def)
  have c8: "use_count s packet = 1 \<longrightarrow>
        available (release_handle packet s) = available s @ [packet] \<and>
        use_count (release_handle packet s) packet = 0 \<and>
        pool (release_handle packet s) = pool s"
    using release_last_handle [of s packet] by blast
  have c9: "1 < use_count s packet \<longrightarrow> available (release_handle packet s) = available s"
    using release_other_handle [of s packet] by blast
  from c1 c2 c3 c4 c5 c6 c7 c8 c9 show ?thesis by blast
qed

theorem IpSecPacketPool_Borrow_fixed_pool_witness:
  "fst (Borrow 0 [] (pool_run [])) = Packet 399 \<and>
   fst (Borrow 0 [([], 50)] (pool_run (replicate 400 (CallBorrow 0 [])))) = Null \<and>
   fst (Borrow 0 [([], 49)] (pool_run (replicate 400 (CallBorrow 0 [])))) = Blocked \<and>
   fst (Borrow 0 [([ReleaseHandle 7], 20)] (pool_run (replicate 400 (CallBorrow 0 [])))) = Packet 7 \<and>
   available (release_handle 399 (pool_run [CallBorrow 0 []])) = [0..<399] @ [399]"
proof -
  have a0: "available (pool_run []) = [0..<400]"
    by (simp add: pool_run_def available_new kPacketPoolSize_def)
  then have ne: "available (pool_run []) \<noteq> []" by simp
  have w1: "fst (Borrow 0 [] (pool_run [])) = Packet 399"
    using IpSecPacketPool_Borrow_fixed_pool [of "pool_run []" "[]" 0 "[]" 0] ne
    by (simp add: a0)
  define full where "full = pool_run (replicate 400 (CallBorrow 0 []))"
  have af: "available full = []" and uf: "use_count full 7 = 1"
    using pool_drained [of 400 0] by (simp_all add: full_def kPacketPoolSize_def)
  have w2: "fst (Borrow 0 [([], 50)] full) = Null"
    by (simp add: Borrow_def kBorrowWaitTimeout_def af)
  have w3: "fst (Borrow 0 [([], 49)] full) = Blocked"
    by (simp add: Borrow_def kBorrowWaitTimeout_def af)
  have w4: "fst (Borrow 0 [([ReleaseHandle 7], 20)] full) = Packet 7"
    by (simp add: Borrow_def kBorrowWaitTimeout_def af uf release_handle_def Return_def
        take_back_def)
  define one where "one = pool_run [CallBorrow 0 []]"
  have one: "available one = [0..<399]" "use_count one 399 = 1"
    by (simp_all add: one_def pool_run_def Borrow_def take_back_def Let_def available_new
        kPacketPoolSize_def butlast_upt_0)
  have w5: "available (release_handle 399 one) = [0..<399] @ [399]"
    using IpSecPacketPool_Borrow_fixed_pool [of one "[CallBorrow 0 []]" 0 "[]" 399] one
    by (simp add: one_def)
  from w1 w2 w3 w4 w5 show ?thesis by (simp add: full_def one_def)
qed

section \<open>Properties of the session\<close>

lemmas timer_defs = emit_def notify_def start_timer_def cancel_timer_def CancelRekeyTimer_def
  CancelDatapathConnectingTimer_def CancelDatapathReattemptTimer_def StartRekeyTimer_def
  StartDatapathConnectingTimer_def StartDatapathReattemptTimer_def SetState_def

lemmas helper_defs = timer_defs terminal_def control_plane_up_def datapath_up_def
  FailWithStatus_def SwitchDatapath_def CreateTunnelThen_def other_family_def Let_def

lemmas handler_defs = Start_def ReadyForAddEgress_def Provisioned_def
  ProvisioningFailure_def SetNetwork_def SetNoNetworkAvailable_def DatapathEstablished_def
  HandleDatapathFailure_def DatapathFailed_def DatapathPermanentFailure_def
  AttemptDatapathReconnect_def DoRekey_def TimerExpiry_def DoUplinkMtuUpdate_def
  DoDownlinkMtuUpdate_def ForceTunnelUpdate_def Stop_def

lemmas scenario_defs = Session_run_def Session_new_def test_config_def cellular_123_def
  control_plane_connected_events_def datapath_connected_events_def OkStatus_def ok_def
  IsPermanentError_def InternalError_def











text \<open>
  Claim C7. In every state, \<open>DatapathEstablished\<close> leaves the reattempt count at 0 and no
  reattempt timer and no connecting timer armed; a timer that was armed is cancelled at
  the timer interface, and no timer is started. This is what the notification does after
  any sequence of inputs.
\<close>

theorem DatapathEstablished_resets_reattempts:
  "datapath_reattempt_count (DatapathEstablished s) = 0 \<and>
   datapath_reattempt_timer_id (DatapathEstablished s) = None \<and>
   datapath_connecting_timer_id (DatapathEstablished s) = None \<and>
   (datapath_connecting_timer_id s = Some connecting_timer \<longrightarrow>
      CancelTimer connecting_timer \<in> set (new_effects s (DatapathEstablished s))) \<and>
   (datapath_reattempt_timer_id s = Some reattempt_timer \<longrightarrow>
      CancelTimer reattempt_timer \<in> set (new_effects s (DatapathEstablished s))) \<and>
   list_all (\<lambda>e. \<not> starts_timer e) (new_effects s (DatapathEstablished s)) \<and>
   Session_run cfg (events @ [EvDatapathEstablished]) = DatapathEstablished (Session_run cfg events)"
  by (auto simp add: DatapathEstablished_def helper_defs new_effects_def starts_timer_def
      Session_run_def split: option.splits)

lemma second_failure_state:
  "state (Session_run test_config second_failure_events) = kDataPlaneConnecting"
  "datapath_reattempt_count (Session_run test_config second_failure_events) = 2"
  "datapath_connecting_timer_id (Session_run test_config second_failure_events) = Some 3"
  "datapath_reattempt_timer_id (Session_run test_config second_failure_events) = Some 4"
  by (simp_all add: second_failure_events_def datapath_failed_events_def scenario_defs
      handler_defs helper_defs)

theorem DatapathEstablished_resets_reattempts_witness:
  "datapath_reattempt_count (Session_run test_config second_failure_events) = 2 \<and>
   datapath_connecting_timer_id (Session_run test_config second_failure_events) = Some 3 \<and>
   datapath_reattempt_timer_id (Session_run test_config second_failure_events) = Some 4 \<and>
   datapath_reattempt_count
     (Session_run test_config (second_failure_events @ [EvDatapathEstablished])) = 0 \<and>
   datapath_reattempt_timer_id
     (Session_run test_config (second_failure_events @ [EvDatapathEstablished])) = None \<and>
   CancelTimer 3 \<in> set (new_effects (Session_run test_config second_failure_events)
     (Session_run test_config (second_failure_events @ [EvDatapathEstablished]))) \<and>
   CancelTimer 4 \<in> set (new_effects (Session_run test_config second_failure_events)
     (Session_run test_config (second_failure_events @ [EvDatapathEstablished])))"
  using DatapathEstablished_resets_reattempts
    [of "Session_run test_config second_failure_events" 3 4 test_config second_failure_events]
  by (simp add: second_failure_state)

text \<open>
  Claim C8. Outside \<open>DataPlaneConnected\<close>, \<open>DoUplinkMtuUpdate\<close> and \<open>DoDownlinkMtuUpdate\<close>
  leave the session as it is, so no MTU changes. In \<open>DataPlaneConnected\<close> the first stores
  the uplink and tunnel MTU and the second the downlink MTU, each leaving the other
  values alone.
\<close>

theorem mtu_updates_only_when_datapath_connected:
  "(state s \<noteq> kDataPlaneConnected \<longrightarrow>
      DoUplinkMtuUpdate new_uplink_mtu new_tunnel_mtu tunnel_status s = s \<and>
      DoDownlinkMtuUpdate new_downlink_mtu s = s) \<and>
   (state s = kDataPlaneConnected \<longrightarrow>
      uplink_mtu (DoUplinkMtuUpdate new_uplink_mtu new_tunnel_mtu tunnel_status s) = new_uplink_mtu \<and>
      tunnel_mtu (DoUplinkMtuUpdate new_uplink_mtu new_tunnel_mtu tunnel_status s) = new_tunnel_mtu \<and>
      downlink_mtu (DoUplinkMtuUpdate new_uplink_mtu new_tunnel_mtu tunnel_status s) = downlink_mtu s \<and>
      downlink_mtu (DoDownlinkMtuUpdate new_downlink_mtu s) = new_downlink_mtu \<and>
      uplink_mtu (DoDownlinkMtuUpdate new_downlink_mtu s) = uplink_mtu s \<and>
      tunnel_mtu (DoDownlinkMtuUpdate new_downlink_mtu s) = tunnel_mtu s)"
  by (simp add: DoUplinkMtuUpdate_def DoDownlinkMtuUpdate_def helper_defs)

lemma datapath_failed_state:
  "state (Session_run test_config datapath_failed_events) = kDataPlaneConnecting"
  "uplink_mtu (Session_run test_config datapath_failed_events) = 0"
  "tunnel_mtu (Session_run test_config datapath_failed_events) = 1395"
  "downlink_mtu (Session_run test_config datapath_failed_events) = 0"
  by (simp_all add: datapath_failed_events_def scenario_defs handler_defs helper_defs)

lemma datapath_connected_state:
  "state (Session_run test_config datapath_connected_events) = kDataPlaneConnected"
  by (simp add: scenario_defs handler_defs helper_defs)

theorem mtu_updates_only_when_datapath_connected_witness:
  "state (Session_run test_config datapath_failed_events) \<noteq> kDataPlaneConnected \<and>
   uplink_mtu (DoUplinkMtuUpdate 123 456 OkStatus (Session_run test_config datapath_failed_events)) = 0 \<and>
   tunnel_mtu (DoUplinkMtuUpdate 123 456 OkStatus (Session_run test_config datapath_failed_events)) = 1395 \<and>
   downlink_mtu (DoDownlinkMtuUpdate 123 (Session_run test_config datapath_failed_events)) = 0 \<and>
   state (Session_run test_config []) \<noteq> kDataPlaneConnected \<and>
   DoDownlinkMtuUpdate 123 (Session_run test_config []) = Session_run test_config [] \<and>
   state (Session_run test_config datapath_connected_events) = kDataPlaneConnected \<and>
   uplink_mtu (DoUplinkMtuUpdate 123 456 OkStatus (Session_run test_config datapath_connected_events)) = 123 \<and>
   tunnel_mtu (DoUplinkMtuUpdate 123 456 OkStatus (Session_run test_config datapath_connected_events)) = 456 \<and>
   downlink_mtu (DoDownlinkMtuUpdate 123 (Session_run test_config datapath_connected_events)) = 123"
proof -
  have new: "state (Session_run test_config []) \<noteq> kDataPlaneConnected"
    by (simp add: Session_run_def Session_new_def)
  show ?thesis
    using mtu_updates_only_when_datapath_connected
        [of "Session_run test_config datapath_failed_events" 123 456 OkStatus 123]
      mtu_updates_only_when_datapath_connected
        [of "Session_run test_config []" 123 456 OkStatus 123]
      mtu_updates_only_when_datapath_connected
        [of "Session_run test_config datapath_connected_events" 123 456 OkStatus 123]
      new
    by (simp add: datapath_failed_state datapath_connected_state)
qed

lemma new_effects_same: "new_effects s s = []"
  by (simp add: new_effects_def)

lemma permanent_error_step:
  assumes "state s = kPermanentError"
  shows "state (Session_step cfg s ev) = kPermanentError \<or> state (Session_step cfg s ev) = kStopped"
    and "list_all (\<lambda>e. \<not> starts_timer e \<and> \<not> switches_network e)
           (new_effects s (Session_step cfg s ev))"
  using assms
  by (cases ev; auto simp add: handler_defs helper_defs new_effects_def starts_timer_def
      switches_network_def split: option.splits)+

lemma IsPermanentError_iff: "IsPermanentError st \<longleftrightarrow> ppn_details st = Some VPN_PERMISSION_REVOKED"
  by (simp add: IsPermanentError_def split: option.splits DetailedErrorCode.splits)

lemma CreateTunnelThen_failure:
  assumes "\<not> ok tunnel_status"
  shows "effects (CreateTunnelThen tunnel_status continue s) =
           effects s @ [VpnService_CreateTunnel (tunnel_mtu s),
             Notify (if IsPermanentError tunnel_status then PermanentFailure tunnel_status
                     else ControlPlaneDisconnected tunnel_status)]"
    and "state (CreateTunnelThen tunnel_status continue s) =
           (if IsPermanentError tunnel_status then kPermanentError else kSessionError)"
    and "latest_status (CreateTunnelThen tunnel_status continue s) = tunnel_status"
    and "datapath_reattempt_timer_id (CreateTunnelThen tunnel_status continue s) =
           datapath_reattempt_timer_id s"
  using assms by (simp_all add: CreateTunnelThen_def helper_defs)

text \<open>
  Claim C6. When \<open>CreateTunnel\<close> fails with the detail \<open>VPN_PERMISSION_REVOKED\<close> during
  \<open>SetNetwork\<close> (from \<open>ControlPlaneConnected\<close>, where the tunnel is created) or during
  \<open>ForceTunnelUpdate\<close>, the session does nothing but create the tunnel and notify
  \<open>PermanentFailure\<close> with that status, and is in \<open>PermanentError\<close>: no timer is started and
  the reattempt timer is as before; from \<open>PermanentError\<close> no input starts a timer or a
  network switch. With any other failing status it notifies \<open>ControlPlaneDisconnected\<close>
  with the status instead. Whether a status is permanent is read off its detail, and
  changing its text changes nothing.
\<close>

theorem CreateTunnel_failure_permanent_by_detail:
  "(state s = kControlPlaneConnected \<and> \<not> ok tunnel_status \<and>
    ppn_details tunnel_status = Some VPN_PERMISSION_REVOKED \<longrightarrow>
      state (SetNetwork cfg ni tunnel_status s) = kPermanentError \<and>
      latest_status (SetNetwork cfg ni tunnel_status s) = tunnel_status \<and>
      new_effects s (SetNetwork cfg ni tunnel_status s) =
        [VpnService_CreateTunnel (tunnel_mtu s), Notify (PermanentFailure tunnel_status)] \<and>
      datapath_reattempt_timer_id (SetNetwork cfg ni tunnel_status s) =
        datapath_reattempt_timer_id s) \<and>
   (control_plane_up s \<and> \<not> ok tunnel_status \<and>
    ppn_details tunnel_status = Some VPN_PERMISSION_REVOKED \<longrightarrow>
      state (ForceTunnelUpdate tunnel_status s) = kPermanentError \<and>
      latest_status (ForceTunnelUpdate tunnel_status s) = tunnel_status \<and>
      new_effects s (ForceTunnelUpdate tunnel_status s) =
        [VpnService_CreateTunnel (tunnel_mtu s), Notify (PermanentFailure tunnel_status)] \<and>
      datapath_reattempt_timer_id (ForceTunnelUpdate tunnel_status s) =
        datapath_reattempt_timer_id s) \<and>
   (state s = kControlPlaneConnected \<and> \<not> ok tunnel_status \<and>
    ppn_details tunnel_status \<noteq> Some VPN_PERMISSION_REVOKED \<longrightarrow>
      state (SetNetwork cfg ni tunnel_status s) = kSessionError \<and>
      new_effects s (SetNetwork cfg ni tunnel_status s) =
        [VpnService_CreateTunnel (tunnel_mtu s), Notify (ControlPlaneDisconnected tunnel_status)]) \<and>
   (control_plane_up s \<and> \<not> ok tunnel_status \<and>
    ppn_details tunnel_status \<noteq> Some VPN_PERMISSION_REVOKED \<longrightarrow>
      state (ForceTunnelUpdate tunnel_status s) = kSessionError \<and>
      new_effects s (ForceTunnelUpdate tunnel_status s) =
        [VpnService_CreateTunnel (tunnel_mtu s), Notify (ControlPlaneDisconnected tunnel_status)]) \<and>
   (IsPermanentError st \<longleftrightarrow> ppn_details st = Some VPN_PERMISSION_REVOKED) \<and>
   IsPermanentError (st\<lparr>message := text\<rparr>) = IsPermanentError st \<and>
   (state s = kPermanentError \<longrightarrow>
      (state (Session_step cfg s ev) = kPermanentError \<or>
       state (Session_step cfg s ev) = kStopped) \<and>
      list_all (\<lambda>e. \<not> starts_timer e \<and> \<not> switches_network e)
        (new_effects s (Session_step cfg s ev)))"
proof -
  have set_network: "SetNetwork cfg ni tunnel_status s =
      CreateTunnelThen tunnel_status (SwitchDatapath cfg) (s\<lparr>active_network_info := Some ni\<rparr>)"
    if "state s = kControlPlaneConnected"
    using that by (simp add: SetNetwork_def Let_def)
  have force: "ForceTunnelUpdate tunnel_status s = CreateTunnelThen tunnel_status (\<lambda>s'. s') s"
    if "control_plane_up s"
    using that by (simp add: ForceTunnelUpdate_def)
  have a: "state s = kControlPlaneConnected \<and> \<not> ok tunnel_status \<and>
    ppn_details tunnel_status = Some VPN_PERMISSION_REVOKED \<longrightarrow>
      state (SetNetwork cfg ni tunnel_status s) = kPermanentError \<and>
      latest_status (SetNetwork cfg ni tunnel_status s) = tunnel_status \<and>
      new_effects s (SetNetwork cfg ni tunnel_status s) =
        [VpnService_CreateTunnel (tunnel_mtu s), Notify (PermanentFailure tunnel_status)] \<and>
      datapath_reattempt_timer_id (SetNetwork cfg ni tunnel_status s) =
        datapath_reattempt_timer_id s"
    by (simp add: set_network CreateTunnelThen_failure IsPermanentError_iff new_effects_def)
  have b: "control_plane_up s \<and> \<not> ok tunnel_status \<and>
    ppn_details tunnel_status = Some VPN_PERMISSION_REVOKED \<longrightarrow>
      state (ForceTunnelUpdate tunnel_status s) = kPermanentError \<and>
      latest_status (ForceTunnelUpdate tunnel_status s) = tunnel_status \<and>
      new_effects s (ForceTunnelUpdate tunnel_status s) =
        [VpnService_CreateTunnel (tunnel_mtu s), Notify (PermanentFailure tunnel_status)] \<and>
      datapath_reattempt_timer_id (ForceTunnelUpdate tunnel_status s) =
        datapath_reattempt_timer_id s"
    by (simp add: force CreateTunnelThen_failure IsPermanentError_iff new_effects_def)
  have c: "state s = kControlPlaneConnected \<and> \<not> ok tunnel_status \<and>
    ppn_details tunnel_status \<noteq> Some VPN_PERMISSION_REVOKED \<longrightarrow>
      state (SetNetwork cfg ni tunnel_status s) = kSessionError \<and>
      new_effects s (SetNetwork cfg ni tunnel_status s) =
        [VpnService_CreateTunnel (tunnel_mtu s), Notify (ControlPlaneDisconnected tunnel_status)]"
    by (simp add: set_network CreateTunnelThen_failure IsPermanentError_iff new_effects_def)
  have d: "control_plane_up s \<and> \<not> ok tunnel_status \<and>
    ppn_details tunnel_status \<noteq> Some VPN_PERMISSION_REVOKED \<longrightarrow>
      state (ForceTunnelUpdate tunnel_status s) = kSessionError \<and>
      new_effects s (ForceTunnelUpdate tunnel_status s) =
        [VpnService_CreateTunnel (tunnel_mtu s), Notify (ControlPlaneDisconnected tunnel_status)]"
    by (simp add: force CreateTunnelThen_failure IsPermanentError_iff new_effects_def)
  have e: "IsPermanentError (st\<lparr>message := text\<rparr>) = IsPermanentError st"
    by (simp add: IsPermanentError_def)
  have f: "state s = kPermanentError \<longrightarrow>
      (state (Session_step cfg s ev) = kPermanentError \<or>
       state (Session_step cfg s ev) = kStopped) \<and>
      list_all (\<lambda>e. \<not> starts_timer e \<and> \<not> switches_network e)
        (new_effects s (Session_step cfg s ev))"
    using permanent_error_step [of s cfg ev] by blast
  from a b c d e f IsPermanentError_iff [of st] show ?thesis by blast
qed


lemma control_plane_connected_state:
  "state (Session_run test_config control_plane_connected_events) = kControlPlaneConnected"
  "tunnel_mtu (Session_run test_config control_plane_connected_events) = 1395"
  "rekey_timer_id (Session_run test_config control_plane_connected_events) = Some 0"
  by (simp_all add: scenario_defs handler_defs helper_defs)

lemma revoked_status:
  "\<not> ok CreateVpnRevokedError"
  "ppn_details CreateVpnRevokedError = Some VPN_PERMISSION_REVOKED"
  "\<not> ok (FailedPreconditionError ''unable to create tunnel'')"
  "ppn_details (FailedPreconditionError ''unable to create tunnel'') \<noteq> Some VPN_PERMISSION_REVOKED"
  by (simp_all add: CreateVpnRevokedError_def FailedPreconditionError_def ok_def)

theorem CreateTunnel_failure_permanent_by_detail_witness:
  "state (Session_run test_config control_plane_connected_events) = kControlPlaneConnected \<and>
   \<not> ok CreateVpnRevokedError \<and>
   ppn_details CreateVpnRevokedError = Some VPN_PERMISSION_REVOKED \<and>
   state (SetNetwork test_config cellular_123 CreateVpnRevokedError
     (Session_run test_config control_plane_connected_events)) = kPermanentError \<and>
   new_effects (Session_run test_config control_plane_connected_events)
     (SetNetwork test_config cellular_123 CreateVpnRevokedError
       (Session_run test_config control_plane_connected_events)) =
     [VpnService_CreateTunnel 1395, Notify (PermanentFailure CreateVpnRevokedError)] \<and>
   state (SetNetwork test_config cellular_123 (FailedPreconditionError ''unable to create tunnel'')
     (Session_run test_config control_plane_connected_events)) = kSessionError \<and>
   new_effects (Session_run test_config control_plane_connected_events)
     (SetNetwork test_config cellular_123 (FailedPreconditionError ''unable to create tunnel'')
       (Session_run test_config control_plane_connected_events)) =
     [VpnService_CreateTunnel 1395,
      Notify (ControlPlaneDisconnected (FailedPreconditionError ''unable to create tunnel''))] \<and>
   code CreateVpnRevokedError = code (FailedPreconditionError ''unable to create tunnel'')"
  using CreateTunnel_failure_permanent_by_detail
      [of "Session_run test_config control_plane_connected_events" CreateVpnRevokedError
        test_config cellular_123]
    CreateTunnel_failure_permanent_by_detail
      [of "Session_run test_config control_plane_connected_events"
        "FailedPreconditionError ''unable to create tunnel''" test_config cellular_123]
  by (simp add: control_plane_connected_state revoked_status)
    (simp add: CreateVpnRevokedError_def FailedPreconditionError_def)

lemma rekey_timer_step:
  assumes "state s = kInitialized \<or> state s = kEgressSessionCreated \<or> state s = kStopped
      \<longrightarrow> rekey_timer_id s = None"
  shows "state (Session_step cfg s ev) = kInitialized \<or>
      state (Session_step cfg s ev) = kEgressSessionCreated \<or>
      state (Session_step cfg s ev) = kStopped
      \<longrightarrow> rekey_timer_id (Session_step cfg s ev) = None"
  using assms
  by (cases ev) (auto simp add: handler_defs helper_defs split: option.splits)

lemma rekey_timer_foldl:
  "(state s = kInitialized \<or> state s = kEgressSessionCreated \<or> state s = kStopped
      \<longrightarrow> rekey_timer_id s = None) \<Longrightarrow>
   (state (foldl (Session_step cfg) s events) = kInitialized \<or>
    state (foldl (Session_step cfg) s events) = kEgressSessionCreated \<or>
    state (foldl (Session_step cfg) s events) = kStopped
      \<longrightarrow> rekey_timer_id (foldl (Session_step cfg) s events) = None)"
proof (induction events arbitrary: s)
  case Nil
  then show ?case by simp
next
  case (Cons ev events)
  from rekey_timer_step [OF Cons.prems, of cfg ev] show ?case
    by (simp only: foldl_Cons) (rule Cons.IH)
qed

lemma rekey_timer_run:
  "rekey_timer_armed (Session_run cfg events) \<Longrightarrow>
     state (Session_run cfg events) \<noteq> kInitialized \<and>
     state (Session_run cfg events) \<noteq> kEgressSessionCreated \<and>
     state (Session_run cfg events) \<noteq> kStopped"
  using rekey_timer_foldl [of Session_new cfg events]
  unfolding Session_run_def rekey_timer_armed_def
  by (auto simp add: Session_new_def)

text \<open>
  Claim C5, as amended. Whenever the rekey timer is armed, the state is none of
  \<open>Initialized\<close>, \<open>EgressSessionCreated\<close> and \<open>Stopped\<close>. The timer is armed when \<open>Provisioned\<close>
  takes the session from \<open>EgressSessionCreated\<close> to \<open>ControlPlaneConnected\<close>, and
  \<open>SetNetwork\<close>, \<open>DatapathFailed\<close>, \<open>AttemptDatapathReconnect\<close> and \<open>DatapathEstablished\<close>
  leave it as it is; \<open>Stop\<close> disarms it.
\<close>

theorem rekey_timer_armed_since_control_plane_connected:
  "(rekey_timer_armed (Session_run cfg events) \<longrightarrow>
      state (Session_run cfg events) \<noteq> kInitialized \<and>
      state (Session_run cfg events) \<noteq> kEgressSessionCreated \<and>
      state (Session_run cfg events) \<noteq> kStopped) \<and>
   (state s = kEgressSessionCreated \<and> ok datapath_status \<longrightarrow>
      rekey_timer_armed (Provisioned cfg False datapath_status tunnel_status s)) \<and>
   (state s = kEgressSessionCreated \<and> ok datapath_status \<and> active_network_info s = None \<longrightarrow>
      state (Provisioned cfg False datapath_status tunnel_status s) = kControlPlaneConnected) \<and>
   rekey_timer_id (SetNetwork cfg ni tunnel_status s) = rekey_timer_id s \<and>
   rekey_timer_id (DatapathFailed cfg st s) = rekey_timer_id s \<and>
   rekey_timer_id (AttemptDatapathReconnect cfg s) = rekey_timer_id s \<and>
   rekey_timer_id (DatapathEstablished s) = rekey_timer_id s \<and>
   \<not> rekey_timer_armed (Stop force_fail_open s)"
proof -
  have a: "state s = kEgressSessionCreated \<and> ok datapath_status \<longrightarrow>
      rekey_timer_armed (Provisioned cfg False datapath_status tunnel_status s)"
    by (auto simp add: Provisioned_def helper_defs rekey_timer_armed_def split: option.splits)
  have b: "state s = kEgressSessionCreated \<and> ok datapath_status \<and> active_network_info s = None \<longrightarrow>
      state (Provisioned cfg False datapath_status tunnel_status s) = kControlPlaneConnected"
    by (auto simp add: Provisioned_def helper_defs split: option.splits)
  have c: "rekey_timer_id (SetNetwork cfg ni tunnel_status s) = rekey_timer_id s"
    by (auto simp add: SetNetwork_def helper_defs split: option.splits)
  have d: "rekey_timer_id (DatapathFailed cfg st s) = rekey_timer_id s"
    by (auto simp add: DatapathFailed_def HandleDatapathFailure_def helper_defs split: option.splits)
  have e: "rekey_timer_id (AttemptDatapathReconnect cfg s) = rekey_timer_id s"
    by (auto simp add: AttemptDatapathReconnect_def helper_defs split: option.splits)
  have f: "rekey_timer_id (DatapathEstablished s) = rekey_timer_id s"
    by (auto simp add: DatapathEstablished_def helper_defs split: option.splits)
  have g: "\<not> rekey_timer_armed (Stop force_fail_open s)"
    by (auto simp add: Stop_def helper_defs rekey_timer_armed_def split: option.splits)
  from rekey_timer_run [of cfg events] a b c d e f g show ?thesis by blast
qed

theorem rekey_timer_armed_since_control_plane_connected_witness:
  "rekey_timer_armed (Session_run test_config control_plane_connected_events) \<and>
   state (Session_run test_config control_plane_connected_events) = kControlPlaneConnected \<and>
   rekey_timer_armed (Session_run test_config datapath_connected_events) \<and>
   state (Session_run test_config datapath_connected_events) = kDataPlaneConnected \<and>
   \<not> rekey_timer_armed (Stop True (Session_run test_config datapath_connected_events))"
proof -
  have armed: "rekey_timer_armed (Session_run test_config control_plane_connected_events)"
    by (simp add: rekey_timer_armed_def control_plane_connected_state)
  have connected: "rekey_timer_armed (Session_run test_config datapath_connected_events)"
    by (simp add: rekey_timer_armed_def scenario_defs handler_defs helper_defs)
  from rekey_timer_armed_since_control_plane_connected
    [where cfg = test_config and events = control_plane_connected_events
        and s = "Session_run test_config datapath_connected_events"
        and force_fail_open = True]
    armed connected
  show ?thesis
    by (simp add: control_plane_connected_state datapath_connected_state)
qed

text \<open>
  Claim C5, as stated, fails: after \<open>Provisioned\<close> the state is \<open>ControlPlaneConnected\<close> and
  the rekey timer is armed (the test \<open>DatapathConnectingTimerExpired\<close> expects the timer of
  24 h before any datapath is connected), and it is still armed in
  \<open>DataPlaneConnecting\<close>; and once it has expired in \<open>DataPlaneConnected\<close> it is not armed
  until the rekey is done.
\<close>

theorem rekey_timer_armed_before_datapath_connected:
  "state (Session_run test_config control_plane_connected_events) = kControlPlaneConnected \<and>
   rekey_timer_armed (Session_run test_config control_plane_connected_events) \<and>
   state (Session_run test_config
     (control_plane_connected_events @ [EvSetNetwork cellular_123 OkStatus])) =
     kDataPlaneConnecting \<and>
   rekey_timer_armed (Session_run test_config
     (control_plane_connected_events @ [EvSetNetwork cellular_123 OkStatus])) \<and>
   state (Session_run test_config (datapath_connected_events @ [EvTimerExpiry 0])) =
     kDataPlaneConnected \<and>
   \<not> rekey_timer_armed (Session_run test_config (datapath_connected_events @ [EvTimerExpiry 0]))"
  by (simp add: rekey_timer_armed_def scenario_defs handler_defs helper_defs)

end
